theory Spec2Isabelle
  imports
    Complex_Main
    "HOL-Library.Sublist"
    "HOL-Library.Multiset"
    "HOL-Library.Char_ord"
    "HOL-Library.List_Lexorder"
    "HOL-Library.Product_Lexorder"
    "HOL-Library.Option_ord"
    "HOL-Library.Log_Nat"
begin

section \<open>The book catalogue: data\<close>

text \<open>
  Python's \<open>datetime.date\<close>: year, month and day, compared as the tuple
  \<open>(year, month, day)\<close>.
\<close>

datatype date = Date (year: nat) (month: nat) (day: nat)

definition date_key :: "date \<Rightarrow> nat \<times> nat \<times> nat" where
  "date_key d = (year d, month d, day d)"

definition date_lt :: "date \<Rightarrow> date \<Rightarrow> bool" where
  "date_lt a b = (date_key a < date_key b)"

text \<open>
  Modelled from the spec: the \<open>Book\<close> entity of \<open>bookapp/models.py\<close>, which is not
  among the source files. Section 3 of the specification gives its fields; \<open>pk\<close> is the
  primary key, the column \<open>id\<close> that the views address as \<open>pk\<close> and count with
  \<open>Count('id')\<close>.
\<close>

record Book =
  pk :: nat
  title :: string
  pages :: int
  rating :: "int option"
  status :: string
  published_date :: date
  read_date :: "date option"
  cover_image :: "string option"
  authors :: "nat list"

text \<open>The record table: the rows \<open>Book.objects.all()\<close> ranges over.\<close>

type_synonym store = "Book list"

section \<open>Access control of the class-based views (\<open>views.py\<close>, \<open>urls.py\<close>)\<close>

text \<open>
  \<open>request.user\<close>: the anonymous user, or a logged-in user with the permissions it
  holds (\<open>user.has_perm\<close> answers from this list).
\<close>

datatype user = AnonymousUser | User (perms: "string list")

fun is_authenticated :: "user \<Rightarrow> bool" where
  "is_authenticated AnonymousUser = False"
| "is_authenticated (User ps) = True"

fun has_perm :: "user \<Rightarrow> string \<Rightarrow> bool" where
  "has_perm AnonymousUser p = False"
| "has_perm (User ps) p = (p \<in> set ps)"

text \<open>
  What a view answers: a rendered template (200), the redirect to the login page (302),
  \<open>PermissionDenied\<close> (403), \<open>Http404\<close> (404), or the redirect to \<open>success_url\<close>
  after a successful POST (302).
\<close>

datatype response =
    Render string
  | RedirectToLogin
  | PermissionDenied
  | Http404
  | RedirectTo string

fun status_code :: "response \<Rightarrow> nat" where
  "status_code (Render t) = 200"
| "status_code RedirectToLogin = 302"
| "status_code PermissionDenied = 403"
| "status_code Http404 = 404"
| "status_code (RedirectTo u) = 302"

text \<open>
  The framework's \<open>AccessMixin.handle_no_permission\<close> (\<open>raise_exception\<close> is left at
  its default \<open>False\<close> by every view of \<open>views.py\<close>): a logged-in user is refused, an
  anonymous one is sent to the login page.
\<close>

definition handle_no_permission :: "user \<Rightarrow> response" where
  "handle_no_permission u =
     (if is_authenticated u then PermissionDenied else RedirectToLogin)"

text \<open>
  \<open>LoginRequiredMixin.dispatch\<close> and \<open>PermissionRequiredMixin.dispatch\<close>: the check
  runs before the view's own handler; \<open>handler\<close> is what the handler would answer.
\<close>

definition LoginRequiredMixin_dispatch :: "user \<Rightarrow> response \<Rightarrow> response" where
  "LoginRequiredMixin_dispatch u handler =
     (if \<not> is_authenticated u then handle_no_permission u else handler)"

definition PermissionRequiredMixin_dispatch :: "string \<Rightarrow> user \<Rightarrow> response \<Rightarrow> response" where
  "PermissionRequiredMixin_dispatch permission_required u handler =
     (if \<not> has_perm u permission_required then handle_no_permission u else handler)"

text \<open>
  The four gated routes of \<open>urlpatterns\<close> with the view each one names:
  \<open>form\<close>, \<open><int:pk>/detail\<close>, \<open><int:pk>/edit\<close>, \<open><int:pk>/delete\<close>.
\<close>

datatype view = BookCreate | BookDetail nat | BookUpdate nat | BookDelete nat

text \<open>\<open>SingleObjectMixin.get_object\<close>: the row with that primary key, if there is one.\<close>

definition get_object :: "store \<Rightarrow> nat \<Rightarrow> Book option" where
  "get_object books key = find (\<lambda>b. pk b = key) books"

text \<open>
  The GET handlers: \<open>CreateView.get\<close> renders the empty form; the other three fetch
  the object first and answer 404 when there is none.
\<close>

fun get_handler :: "store \<Rightarrow> view \<Rightarrow> response" where
  "get_handler books BookCreate = Render ''bookapp/form.html''"
| "get_handler books (BookDetail key) =
     (case get_object books key of None \<Rightarrow> Http404 | Some b \<Rightarrow> Render ''bookapp/detail.html'')"
| "get_handler books (BookUpdate key) =
     (case get_object books key of None \<Rightarrow> Http404 | Some b \<Rightarrow> Render ''bookapp/form.html'')"
| "get_handler books (BookDelete key) =
     (case get_object books key of None \<Rightarrow> Http404 | Some b \<Rightarrow> Render ''bookapp/confirm_delete.html'')"

text \<open>
  \<open>dispatch\<close> of each view class, by its mixin: \<open>BookCreate\<close> and \<open>BookDetail\<close> are
  \<open>LoginRequiredMixin\<close> views, \<open>BookUpdate\<close> and \<open>BookDelete\<close> are
  \<open>PermissionRequiredMixin\<close> views with their \<open>permission_required\<close>.
\<close>

fun dispatch :: "view \<Rightarrow> user \<Rightarrow> response \<Rightarrow> response" where
  "dispatch BookCreate u handler = LoginRequiredMixin_dispatch u handler"
| "dispatch (BookDetail key) u handler = LoginRequiredMixin_dispatch u handler"
| "dispatch (BookUpdate key) u handler =
     PermissionRequiredMixin_dispatch ''bookapp.change_book'' u handler"
| "dispatch (BookDelete key) u handler =
     PermissionRequiredMixin_dispatch ''bookapp.delete_book'' u handler"

definition http_get :: "store \<Rightarrow> view \<Rightarrow> user \<Rightarrow> response" where
  "http_get books v u = dispatch v u (get_handler books v)"

section \<open>Strings\<close>

text \<open>
  A Python \<open>str\<close> is modelled as a \<open>string\<close> whose characters are the code points
  below 256, so \<open>length\<close> counts characters as \<open>len\<close> does.
  \<open>lower_ascii\<close> folds the letters \<open>A\<close> to \<open>Z\<close>, which is the case folding
  of the database's \<open>LIKE\<close> behind \<open>icontains\<close>.
\<close>

definition lower_ascii :: "char \<Rightarrow> char" where
  "lower_ascii c =
     (let n = (of_char c :: nat) in if 65 \<le> n \<and> n \<le> 90 then char_of (n + 32) else c)"

text \<open>Substring search: does \<open>needle\<close> start at some position of the text?\<close>

fun starts_with :: "'a list \<Rightarrow> 'a list \<Rightarrow> bool" where
  "starts_with [] text = True"
| "starts_with (n # ns) [] = False"
| "starts_with (n # ns) (c # cs) = (n = c \<and> starts_with ns cs)"

fun contains :: "'a list \<Rightarrow> 'a list \<Rightarrow> bool" where
  "contains needle [] = (needle = [])"
| "contains needle (c # cs) = (starts_with needle (c # cs) \<or> contains needle cs)"

text \<open>The lookup \<open>title__icontains=value\<close> on one title.\<close>

definition icontains :: "string \<Rightarrow> string \<Rightarrow> bool" where
  "icontains v text = contains (map lower_ascii v) (map lower_ascii text)"



text \<open>\<open>str(n)\<close> of an integer, in decimal.\<close>

fun str_nat :: "nat \<Rightarrow> string" where
  "str_nat n =
     (if n < 10 then [char_of (48 + n)] else str_nat (n div 10) @ [char_of (48 + n mod 10)])"

declare str_nat.simps [simp del]

definition str_int :: "int \<Rightarrow> string" where
  "str_int i = (if i < 0 then CHR ''-'' # str_nat (nat (- i)) else str_nat (nat i))"

text \<open>\<open>str\<close> of a nullable integer column: \<open>str(None)\<close> is \<open>'None'\<close>.\<close>

fun str_opt :: "int option \<Rightarrow> string" where
  "str_opt None = ''None''"
| "str_opt (Some i) = str_int i"

text \<open>
  \<open>json.dumps\<close> of a list of strings and of a list of integers, with the default
  separators and \<open>ensure_ascii\<close>: every character outside \<open>' '..'~'\<close> is escaped.
\<close>

definition hex_digit :: "nat \<Rightarrow> char" where
  "hex_digit n = (if n < 10 then char_of (48 + n) else char_of (87 + n))"

definition json_escape :: "char \<Rightarrow> string" where
  "json_escape c =
     (let n = (of_char c :: nat) in
      if c = CHR ''\"'' then [CHR 0x5C, CHR ''\"'']
      else if n = 0x5C then [CHR 0x5C, CHR 0x5C]
      else if n = 0x0A then [CHR 0x5C, CHR ''n'']
      else if n = 0x0D then [CHR 0x5C, CHR ''r'']
      else if n = 0x09 then [CHR 0x5C, CHR ''t'']
      else if n = 0x08 then [CHR 0x5C, CHR ''b'']
      else if n = 0x0C then [CHR 0x5C, CHR ''f'']
      else if n < 0x20 \<or> 0x7E < n
        then [CHR 0x5C, CHR ''u'', CHR ''0'', CHR ''0'', hex_digit (n div 16), hex_digit (n mod 16)]
      else [c])"

definition json_str :: "string \<Rightarrow> string" where
  "json_str s = [CHR ''\"''] @ concat (map json_escape s) @ [CHR ''\"'']"

fun join :: "string \<Rightarrow> string list \<Rightarrow> string" where
  "join sep [] = []"
| "join sep [x] = x"
| "join sep (x # y # ys) = x @ sep @ join sep (y # ys)"

definition json_list :: "string list \<Rightarrow> string" where
  "json_list items = ''['' @ join '', '' items @ '']''"

definition json_dumps_strs :: "string list \<Rightarrow> string" where
  "json_dumps_strs xs = json_list (map json_str xs)"

definition json_dumps_ints :: "int list \<Rightarrow> string" where
  "json_dumps_ints xs = json_list (map str_int xs)"

section \<open>Query sets\<close>

text \<open>
  A \<open>QuerySet\<close> is lazy: it records the lookups and the ordering asked for, and the rows
  are fetched when it is evaluated. The views use two lookups, \<open>title__icontains\<close> and
  \<open>rating__isnull\<close>, and order by a single key.
\<close>

datatype lookup = title__icontains string | rating__isnull bool

record queryset =
  qs_where :: "lookup list"
  qs_order :: "string option"

datatype error = FieldError string

definition objects_all :: queryset where
  "objects_all = \<lparr>qs_where = [], qs_order = None\<rparr>"

definition QuerySet_filter :: "lookup \<Rightarrow> queryset \<Rightarrow> queryset" where
  "QuerySet_filter l qs = qs\<lparr>qs_where := qs_where qs @ [l]\<rparr>"

text \<open>
  Modelled from the spec: the columns of \<open>Book\<close> (declared in \<open>bookapp/models.py\<close>,
  not among the source files) that an ordering key can name.
\<close>

definition Book_columns :: "string list" where
  "Book_columns = [''id'', ''title'', ''pages'', ''rating'', ''status'', ''published_date'',
                   ''read_date'', ''cover_image'']"

definition removeprefix_minus :: "string \<Rightarrow> string" where
  "removeprefix_minus k = (case k of [] \<Rightarrow> [] | c # cs \<Rightarrow> if c = CHR ''-'' then cs else k)"

definition is_descending :: "string \<Rightarrow> bool" where
  "is_descending k = (case k of [] \<Rightarrow> False | c # cs \<Rightarrow> c = CHR ''-'')"

text \<open>
  \<open>QuerySet.order_by(key)\<close> resolves the key when it is called and raises
  \<open>FieldError\<close> for a name it cannot resolve. The keys resolved here are the columns of
  \<open>Book\<close>, each with an optional leading \<open>-\<close>; the framework resolves a few more
  (\<open>pk\<close>, \<open>?\<close>, paths through relations), none of which the views pass.
\<close>

definition QuerySet_order_by :: "string \<Rightarrow> queryset \<Rightarrow> error + queryset" where
  "QuerySet_order_by k qs =
     (if removeprefix_minus k \<in> set Book_columns
      then Inr (qs\<lparr>qs_order := Some k\<rparr>)
      else Inl (FieldError k))"

fun matches :: "lookup \<Rightarrow> Book \<Rightarrow> bool" where
  "matches (title__icontains v) b = icontains v (title b)"
| "matches (rating__isnull isnull) b = ((rating b = None) = isnull)"

text \<open>
  \<open>ORDER BY col ASC\<close>; the database leaves the order of rows with equal keys open, the
  model keeps them in table order. A null sorts before every value.
\<close>

definition ascending :: "string \<Rightarrow> Book list \<Rightarrow> Book list" where
  "ascending col rows =
     (if col = ''id'' then sort_key pk rows
      else if col = ''title'' then sort_key title rows
      else if col = ''pages'' then sort_key pages rows
      else if col = ''rating'' then sort_key rating rows
      else if col = ''status'' then sort_key status rows
      else if col = ''published_date'' then sort_key (\<lambda>b. date_key (published_date b)) rows
      else if col = ''read_date'' then sort_key (\<lambda>b. map_option date_key (read_date b)) rows
      else if col = ''cover_image'' then sort_key cover_image rows
      else rows)"

definition order_rows :: "string \<Rightarrow> Book list \<Rightarrow> Book list" where
  "order_rows k rows =
     (if is_descending k then rev (ascending (removeprefix_minus k) rows)
      else ascending k rows)"

text \<open>Evaluating a query set against the table.\<close>

definition fetch :: "store \<Rightarrow> queryset \<Rightarrow> Book list" where
  "fetch books qs =
     (let rows = filter (\<lambda>b. list_all (\<lambda>l. matches l b) (qs_where qs)) books
      in case qs_order qs of None \<Rightarrow> rows | Some k \<Rightarrow> order_rows k rows)"

definition QuerySet_first :: "store \<Rightarrow> queryset \<Rightarrow> Book option" where
  "QuerySet_first books qs = (case fetch books qs of [] \<Rightarrow> None | b # rest \<Rightarrow> Some b)"

text \<open>
  \<open>.values(col).annotate(count=Count('id'))\<close>: one row per distinct value of the
  column, with the number of rows that have it (\<open>GROUP BY col\<close>). The database
  leaves the order of the groups open unless the query orders its rows; the model lists
  each value where it occurs last in the rows, so the groups of ordered rows are ordered.
\<close>

definition values_count :: "(Book \<Rightarrow> 'k) \<Rightarrow> Book list \<Rightarrow> ('k \<times> nat) list" where
  "values_count col rows =
     map (\<lambda>k. (k, length (filter (\<lambda>b. col b = k) rows))) (remdups (map col rows))"

section \<open>Pagination\<close>

text \<open>
  \<open>int(s)\<close> on a string: surrounding whitespace is dropped, then an optional sign and
  decimal digits, where single underscores may separate digits. \<open>None\<close> stands for
  \<open>ValueError\<close>.
\<close>

definition is_space :: "char \<Rightarrow> bool" where
  "is_space c =
     (let n = (of_char c :: nat)
      in (9 \<le> n \<and> n \<le> 13) \<or> (28 \<le> n \<and> n \<le> 32) \<or> n = 133 \<or> n = 160)"

definition strip :: "string \<Rightarrow> string" where
  "strip s = rev (dropWhile is_space (rev (dropWhile is_space s)))"

definition is_digit :: "char \<Rightarrow> bool" where
  "is_digit c = (let n = (of_char c :: nat) in 48 \<le> n \<and> n \<le> 57)"

definition digit_value :: "char \<Rightarrow> nat" where
  "digit_value c = of_char c - 48"

fun py_digits :: "nat \<Rightarrow> string \<Rightarrow> nat option" where
  "py_digits acc [] = Some acc"
| "py_digits acc [c] = (if is_digit c then Some (10 * acc + digit_value c) else None)"
| "py_digits acc (c # d # ds) =
     (if is_digit c then py_digits (10 * acc + digit_value c) (d # ds)
      else if c = CHR ''_'' \<and> is_digit d then py_digits (10 * acc + digit_value d) ds
      else None)"

definition py_nat :: "string \<Rightarrow> nat option" where
  "py_nat s =
     (case s of [] \<Rightarrow> None
      | c # cs \<Rightarrow> if is_digit c then py_digits (digit_value c) cs else None)"

definition py_int :: "string \<Rightarrow> int option" where
  "py_int s =
     (case strip s of
        [] \<Rightarrow> None
      | c # cs \<Rightarrow>
          if c = CHR ''-'' then map_option (\<lambda>n. - int n) (py_nat cs)
          else if c = CHR ''+'' then map_option int (py_nat cs)
          else map_option int (py_nat (c # cs)))"

text \<open>
  \<open>Paginator(object_list, per_page)\<close> with the defaults \<open>orphans=0\<close> and
  \<open>allow_empty_first_page=True\<close>.
\<close>

record paginator =
  object_list :: queryset
  per_page :: nat

record page =
  page_object_list :: "Book list"
  number :: int
  page_paginator :: paginator

datatype page_error = PageNotAnInteger | EmptyPage

definition num_pages :: "nat \<Rightarrow> nat \<Rightarrow> nat" where
  "num_pages cnt pp = (let hits = max 1 cnt in (hits + pp - 1) div pp)"

definition validate_number :: "nat \<Rightarrow> nat \<Rightarrow> string option \<Rightarrow> page_error + int" where
  "validate_number cnt pp num =
     (case num of
        None \<Rightarrow> Inl PageNotAnInteger
      | Some s \<Rightarrow>
          (case py_int s of
             None \<Rightarrow> Inl PageNotAnInteger
           | Some n \<Rightarrow>
               if n < 1 then Inl EmptyPage
               else if n > int (num_pages cnt pp) then Inl EmptyPage
               else Inr n))"

text \<open>
  \<open>Paginator.get_page\<close>: a number that is not an integer gives the first page, one out
  of range the last page. The page holds \<open>object_list[bottom:top]\<close> of the evaluated
  query set.
\<close>

definition get_page :: "store \<Rightarrow> paginator \<Rightarrow> string option \<Rightarrow> page" where
  "get_page books p num =
     (let rows = fetch books (object_list p);
          cnt = length rows;
          n = (case validate_number cnt (per_page p) num of
                 Inl PageNotAnInteger \<Rightarrow> 1
               | Inl EmptyPage \<Rightarrow> int (num_pages cnt (per_page p))
               | Inr n \<Rightarrow> n);
          bottom = (nat n - 1) * per_page p;
          top = (if bottom + per_page p \<ge> cnt then cnt else bottom + per_page p)
      in \<lparr>page_object_list = take (top - bottom) (drop bottom rows),
          number = n,
          page_paginator = p\<rparr>)"

section \<open>The list view (\<open>views.book_list\<close>)\<close>

definition VALID_ORDER_FIELDS :: "string list" where
  "VALID_ORDER_FIELDS =
     [''title'', ''pages'', ''rating'', ''status'', ''published_date'',
      ''-title'', ''-pages'', ''-rating'', ''-status'', ''-published_date'']"

text \<open>\<open>request.GET\<close> and \<open>request.GET.get(key, default)\<close>.\<close>

type_synonym querydict = "string \<rightharpoonup> string"

definition dict_get :: "querydict \<Rightarrow> string \<Rightarrow> string \<Rightarrow> string" where
  "dict_get d k dflt = (case d k of None \<Rightarrow> dflt | Some v \<Rightarrow> v)"

text \<open>The context handed to \<open>render\<close> with \<open>bookapp/list.html\<close>.\<close>

record list_context =
  ctx_page_obj :: page
  ctx_title_filter :: string
  ctx_order_by :: string

definition book_list :: "querydict \<Rightarrow> store \<Rightarrow> error + list_context" where
  "book_list GET all_books =
     (let title_filter = dict_get GET ''title'' [];
          order_by = dict_get GET ''order_by'' ''title'';
          order_by = (if order_by \<notin> set VALID_ORDER_FIELDS then ''title'' else order_by);
          books = objects_all;
          books = (if title_filter \<noteq> []
                   then QuerySet_filter (title__icontains title_filter) books else books)
      in case QuerySet_order_by order_by books of
           Inl e \<Rightarrow> Inl e
         | Inr books \<Rightarrow>
             Inr \<lparr>ctx_page_obj =
                    get_page all_books \<lparr>object_list = books, per_page = 5\<rparr> (GET ''page''),
                  ctx_title_filter = title_filter,
                  ctx_order_by = order_by\<rparr>)"


section \<open>The statistics view (\<open>views.stats\<close>)\<close>

text \<open>
  The two means are floating-point numbers: the database computes \<open>AVG\<close> in its own
  arithmetic, and Python tests and rounds the float it is handed. What these three
  operations compute is a parameter of the view: \<open>op_avg\<close> is the database's \<open>AVG\<close>
  of a non-empty list of integers, \<open>op_is_zero\<close> says whether a float is zero (which is
  what makes it falsy), \<open>op_round\<close> is \<open>round(x, ndigits)\<close> on a float.
\<close>

record 'f float_ops =
  op_avg :: "int list \<Rightarrow> 'f"
  op_is_zero :: "'f \<Rightarrow> bool"
  op_round :: "'f \<Rightarrow> nat \<Rightarrow> 'f"

text \<open>A Python number: the integer \<open>0\<close> of \<open>avg or 0\<close>, or a float.\<close>

datatype 'f number = PyInt int | PyFloat 'f

text \<open>
  \<open>aggregate(avg=Avg(col))['avg']\<close>: the database's mean of the non-null values of the
  column, \<open>None\<close> when there is none.
\<close>

definition aggregate_Avg ::
  "'f float_ops \<Rightarrow> (Book \<Rightarrow> int option) \<Rightarrow> Book list \<Rightarrow> 'f option" where
  "aggregate_Avg ops col rows =
     (let vals = List.map_filter col rows
      in if vals = [] then None else Some (op_avg ops vals))"

text \<open>\<open>avg or 0\<close>: \<open>None\<close>, and a mean that is zero, give the integer \<open>0\<close>.\<close>

definition or_0 :: "'f float_ops \<Rightarrow> 'f option \<Rightarrow> 'f number" where
  "or_0 ops avg =
     (case avg of None \<Rightarrow> PyInt 0 | Some a \<Rightarrow> if op_is_zero ops a then PyInt 0 else PyFloat a)"

text \<open>
  \<open>round(x, ndigits)\<close> with \<open>ndigits\<close> not negative: an integer is returned as it is,
  a float is rounded.
\<close>

fun round_number :: "'f float_ops \<Rightarrow> 'f number \<Rightarrow> nat \<Rightarrow> 'f number" where
  "round_number ops (PyInt i) ndigits = PyInt i"
| "round_number ops (PyFloat x) ndigits = PyFloat (op_round ops x ndigits)"

definition stats_max_pages :: "store \<Rightarrow> error + Book option" where
  "stats_max_pages books =
     (case QuerySet_order_by ''-pages'' objects_all of
        Inl e \<Rightarrow> Inl e | Inr qs \<Rightarrow> Inr (QuerySet_first books qs))"

definition stats_min_pages :: "store \<Rightarrow> error + Book option" where
  "stats_min_pages books =
     (case QuerySet_order_by ''pages'' objects_all of
        Inl e \<Rightarrow> Inl e | Inr qs \<Rightarrow> Inr (QuerySet_first books qs))"

definition stats_avg_pages :: "'f float_ops \<Rightarrow> store \<Rightarrow> 'f number" where
  "stats_avg_pages ops books =
     or_0 ops (aggregate_Avg ops (\<lambda>b. Some (pages b)) (fetch books objects_all))"

definition stats_avg_rating :: "'f float_ops \<Rightarrow> store \<Rightarrow> 'f number" where
  "stats_avg_rating ops books = or_0 ops (aggregate_Avg ops rating (fetch books objects_all))"

definition stats_status_data :: "store \<Rightarrow> (string \<times> nat) list" where
  "stats_status_data books = values_count status (fetch books objects_all)"

text \<open>
  \<open>filter(rating__isnull=False).values('rating').annotate(count=Count('id')).order_by('rating')\<close>:
  the groups of the rated rows, in ascending order of the rating.
\<close>

definition stats_rating_data :: "store \<Rightarrow> error + (int option \<times> nat) list" where
  "stats_rating_data books =
     (case QuerySet_order_by ''rating'' (QuerySet_filter (rating__isnull False) objects_all) of
        Inl e \<Rightarrow> Inl e | Inr qs \<Rightarrow> Inr (values_count rating (fetch books qs)))"

text \<open>The context handed to \<open>render\<close> with \<open>bookapp/stats.html\<close>.\<close>

record 'f stats_context =
  ctx_max_pages :: "Book option"
  ctx_min_pages :: "Book option"
  ctx_avg_pages :: "'f number"
  ctx_avg_rating :: "'f number"
  ctx_status_labels :: string
  ctx_status_counts :: string
  ctx_rating_labels :: string
  ctx_rating_counts :: string

definition stats :: "'f float_ops \<Rightarrow> store \<Rightarrow> error + 'f stats_context" where
  "stats ops books =
     (case stats_max_pages books of Inl e \<Rightarrow> Inl e | Inr max_pages \<Rightarrow>
      case stats_min_pages books of Inl e \<Rightarrow> Inl e | Inr min_pages \<Rightarrow>
      case stats_rating_data books of Inl e \<Rightarrow> Inl e | Inr rating_data \<Rightarrow>
        (let status_labels = map fst (stats_status_data books);
             status_counts = map snd (stats_status_data books);
             rating_labels = map (\<lambda>d. str_opt (fst d)) rating_data;
             rating_counts = map snd rating_data
         in Inr \<lparr>ctx_max_pages = max_pages,
                 ctx_min_pages = min_pages,
                 ctx_avg_pages = round_number ops (stats_avg_pages ops books) 2,
                 ctx_avg_rating = round_number ops (stats_avg_rating ops books) 2,
                 ctx_status_labels = json_dumps_strs status_labels,
                 ctx_status_counts = json_dumps_ints (map int status_counts),
                 ctx_rating_labels = json_dumps_strs rating_labels,
                 ctx_rating_counts = json_dumps_ints (map int rating_counts)\<rparr>))"

subsection \<open>Double precision: SQLite's \<open>AVG\<close> and Python's \<open>round\<close>\<close>

text \<open>
  A double is modelled by the rational number it denotes. \<open>to_double\<close> rounds a rational
  to the nearest number with a significand of 53 bits, to the even significand when two are
  equally near: with \<open>pow2 e \<le> |x| < pow2 (e + 1)\<close>, the nearest multiple of
  \<open>pow2 (e - 52)\<close>, where \<open>pow2 e\<close> is 2 to the power \<open>e\<close>. The range of the
  exponent is left out: every mean of 64-bit integers and its rounding lie well inside it.
\<close>

definition round_half_even :: "rat \<Rightarrow> int" where
  "round_half_even x =
     (let f = \<lfloor>x\<rfloor>; d = x - of_int f
      in if d < 1 / 2 then f else if 1 / 2 < d then f + 1 else if even f then f else f + 1)"

definition pow2 :: "int \<Rightarrow> rat" where
  "pow2 e = (if 0 \<le> e then 2 ^ nat e else 1 / 2 ^ nat (- e))"

definition floor_log2 :: "rat \<Rightarrow> int" where
  "floor_log2 x =
     (let d = bitlen (fst (quotient_of x)) - bitlen (snd (quotient_of x))
      in if pow2 d \<le> x then d else d - 1)"

definition to_double :: "rat \<Rightarrow> rat" where
  "to_double x =
     (if x = 0 then 0
      else let ulp = pow2 (floor_log2 \<bar>x\<bar> - 52)
           in of_int (round_half_even (x / ulp)) * ulp)"

text \<open>
  The project's settings are not among the sources; the database is taken to be SQLite,
  the default of a Django project. SQLite's \<open>AVG\<close> over integers adds them up as a
  64-bit integer, converts the sum to a double and divides it by the count (which is far
  below \<open>2 ^ 53\<close> and converts exactly); Django hands the quotient on as a Python
  float. Sums beyond the 64-bit range, which SQLite adds up in floating point, are not
  distinguished here. Versions of SQLite before 3.44 add the values up in floating point
  throughout, which gives the same double whenever the absolute values add up to at most
  \<open>2 ^ 53\<close>.
\<close>

definition sqlite_avg :: "int list \<Rightarrow> rat" where
  "sqlite_avg vals = to_double (to_double (of_int (sum_list vals)) / of_int (int (length vals)))"

text \<open>
  CPython's \<open>round(x, ndigits)\<close> on a float: the exact value of \<open>x\<close> is rounded to
  \<open>ndigits\<close> decimals, to the even last digit when two are equally near, and the result
  is the double nearest to that decimal number.
\<close>

definition float_round :: "rat \<Rightarrow> nat \<Rightarrow> rat" where
  "float_round x ndigits = to_double (of_int (round_half_even (x * 10 ^ ndigits)) / 10 ^ ndigits)"

definition double_ops :: "rat float_ops" where
  "double_ops = \<lparr>op_avg = sqlite_avg, op_is_zero = (\<lambda>x. x = 0), op_round = float_round\<rparr>"

text \<open>The number a Python value denotes.\<close>

fun number_value :: "rat number \<Rightarrow> rat" where
  "number_value (PyInt i) = of_int i"
| "number_value (PyFloat x) = x"

section \<open>The form (\<open>forms.BookForm\<close>)\<close>

text \<open>
  What reaches a form field: nothing (\<open>Blank\<close>: the key is missing or empty), something
  the field's \<open>to_python\<close> rejects (\<open>Malformed\<close>: not a number, not a date, not one of
  the choices), or a value of the field's type. The title is text in any case: \<open>in_title\<close>
  is the text the field validates, empty when nothing was submitted.
\<close>

datatype 'a submitted = Blank | Malformed | Parsed 'a

record form_data =
  in_title :: string
  in_pages :: "int submitted"
  in_rating :: "int submitted"
  in_status :: "string submitted"
  in_published_date :: "date submitted"
  in_read_date :: "date submitted"
  in_cover_image :: "string submitted"
  in_authors :: "nat list submitted"

text \<open>
  A message is either a text the application gives, or the framework's own message for an
  error code (\<open>required\<close>, \<open>invalid\<close>, \<open>min_value\<close>, ...).
\<close>

datatype message = Text string | Default string

text \<open>\<open>BookForm.Meta.error_messages\<close>.\<close>

definition error_messages :: "string \<Rightarrow> string \<Rightarrow> string option" where
  "error_messages field code =
     (if field = ''title'' then
        (if code = ''max_length'' then Some ''The title must be less than 50 characters long''
         else if code = ''required'' then Some ''The title is mandatory''
         else None)
      else None)"

definition message_for :: "string \<Rightarrow> string \<Rightarrow> message" where
  "message_for field code =
     (case error_messages field code of Some m \<Rightarrow> Text m | None \<Rightarrow> Default code)"

text \<open>
  \<open>cleaned_data\<close>: for each field \<open>None\<close> when the key is not in the dictionary, and
  \<open>Some v\<close> when it is; the value of an optional field may itself be \<open>None\<close>.
\<close>

record cleaned =
  cd_title :: "string option"
  cd_pages :: "int option"
  cd_rating :: "int option option"
  cd_status :: "string option"
  cd_published_date :: "date option"
  cd_read_date :: "date option option"
  cd_cover_image :: "string option option"
  cd_authors :: "nat list option"

definition empty_cleaned :: cleaned where
  "empty_cleaned =
     \<lparr>cd_title = None, cd_pages = None, cd_rating = None, cd_status = None,
      cd_published_date = None, cd_read_date = None, cd_cover_image = None,
      cd_authors = None\<rparr>"

text \<open>\<open>del self.cleaned_data[field]\<close>.\<close>

definition cd_del :: "string \<Rightarrow> cleaned \<Rightarrow> cleaned" where
  "cd_del field cd =
     (if field = ''title'' then cd\<lparr>cd_title := None\<rparr>
      else if field = ''pages'' then cd\<lparr>cd_pages := None\<rparr>
      else if field = ''rating'' then cd\<lparr>cd_rating := None\<rparr>
      else if field = ''status'' then cd\<lparr>cd_status := None\<rparr>
      else if field = ''published_date'' then cd\<lparr>cd_published_date := None\<rparr>
      else if field = ''read_date'' then cd\<lparr>cd_read_date := None\<rparr>
      else if field = ''cover_image'' then cd\<lparr>cd_cover_image := None\<rparr>
      else if field = ''authors'' then cd\<lparr>cd_authors := None\<rparr>
      else cd)"

record form =
  errors :: "string \<rightharpoonup> message list"
  cleaned_data :: cleaned

text \<open>
  \<open>Form.add_error(field, error)\<close>: the messages are appended to the field's list and the
  field leaves \<open>cleaned_data\<close>. Nothing is raised.
\<close>

definition add_error :: "string \<Rightarrow> message list \<Rightarrow> form \<Rightarrow> form" where
  "add_error field msgs f =
     f\<lparr>errors := (errors f)(field \<mapsto> (case errors f field of None \<Rightarrow> [] | Some old \<Rightarrow> old) @ msgs),
       cleaned_data := cd_del field (cleaned_data f)\<rparr>"

text \<open>
  Modelled from the spec: the field declarations of \<open>bookapp/models.py\<close> (not among the
  source files), from which the form's fields are built. Section 3 gives them: \<open>title\<close>
  required with at most 50 characters, \<open>pages\<close> required and at least 1, \<open>rating\<close>
  optional and within 1 to 5, \<open>status\<close> and \<open>published_date\<close> required,
  \<open>read_date\<close>, \<open>cover_image\<close> and \<open>authors\<close> optional.
\<close>

definition title_max_length :: nat where
  "title_max_length = 50"

text \<open>
  A field's \<open>clean\<close>: the cleaned value, or the codes of the errors it raises. A
  required field raises \<open>required\<close> on nothing, an optional one cleans nothing to
  \<open>None\<close> (the author selection to the empty list); the title raises \<open>max_length\<close>
  beyond \<open>title_max_length\<close> characters.
\<close>

definition clean_title :: "string \<Rightarrow> string list + string" where
  "clean_title v =
     (if v = [] then Inl [''required'']
      else if length v > title_max_length then Inl [''max_length'']
      else Inr v)"

fun clean_required :: "'a submitted \<Rightarrow> string list + 'a" where
  "clean_required Blank = Inl [''required'']"
| "clean_required Malformed = Inl [''invalid'']"
| "clean_required (Parsed v) = Inr v"

fun clean_optional :: "'a submitted \<Rightarrow> string list + 'a option" where
  "clean_optional Blank = Inr None"
| "clean_optional Malformed = Inl [''invalid'']"
| "clean_optional (Parsed v) = Inr (Some v)"

fun clean_choice :: "'a submitted \<Rightarrow> string list + 'a" where
  "clean_choice Blank = Inl [''required'']"
| "clean_choice Malformed = Inl [''invalid_choice'']"
| "clean_choice (Parsed v) = Inr v"

fun clean_authors :: "nat list submitted \<Rightarrow> string list + nat list" where
  "clean_authors Blank = Inr []"
| "clean_authors Malformed = Inl [''invalid_choice'']"
| "clean_authors (Parsed ids) = Inr ids"

text \<open>
  One turn of the loop of \<open>_clean_fields\<close>: the value goes into \<open>cleaned_data\<close>, or the
  \<open>ValidationError\<close> is caught and handed to \<open>add_error\<close>. The loop runs over the
  fields of the form, which are all the fields of \<open>Book\<close> (\<open>fields = '__all__'\<close>).
\<close>

definition clean_field ::
  "string \<Rightarrow> string list + 'a \<Rightarrow> ('a \<Rightarrow> cleaned \<Rightarrow> cleaned) \<Rightarrow> form \<Rightarrow> form" where
  "clean_field name result put f =
     (case result of
        Inr v \<Rightarrow> f\<lparr>cleaned_data := put v (cleaned_data f)\<rparr>
      | Inl codes \<Rightarrow> add_error name (map (message_for name) codes) f)"

definition clean_fields :: "form_data \<Rightarrow> form \<Rightarrow> form" where
  "clean_fields d f =
     (let f = clean_field ''title'' (clean_title (in_title d)) (\<lambda>v cd. cd\<lparr>cd_title := Some v\<rparr>) f;
          f = clean_field ''pages'' (clean_required (in_pages d)) (\<lambda>v cd. cd\<lparr>cd_pages := Some v\<rparr>) f;
          f = clean_field ''rating'' (clean_optional (in_rating d)) (\<lambda>v cd. cd\<lparr>cd_rating := Some v\<rparr>) f;
          f = clean_field ''status'' (clean_choice (in_status d)) (\<lambda>v cd. cd\<lparr>cd_status := Some v\<rparr>) f;
          f = clean_field ''published_date'' (clean_required (in_published_date d))
                (\<lambda>v cd. cd\<lparr>cd_published_date := Some v\<rparr>) f;
          f = clean_field ''read_date'' (clean_optional (in_read_date d))
                (\<lambda>v cd. cd\<lparr>cd_read_date := Some v\<rparr>) f;
          f = clean_field ''cover_image'' (clean_optional (in_cover_image d))
                (\<lambda>v cd. cd\<lparr>cd_cover_image := Some v\<rparr>) f;
          f = clean_field ''authors'' (clean_authors (in_authors d))
                (\<lambda>v cd. cd\<lparr>cd_authors := Some v\<rparr>) f
      in f)"

text \<open>\<open>self.cleaned_data.get(key)\<close> on an optional field: \<open>None\<close> when the key is missing.\<close>

definition cleaned_get :: "'a option option \<Rightarrow> 'a option" where
  "cleaned_get e = (case e of None \<Rightarrow> None | Some v \<Rightarrow> v)"

text \<open>
  \<open>BookForm.clean\<close>. \<open>super().clean()\<close> changes neither the errors nor the cleaned
  data; the method returns nothing, so \<open>cleaned_data\<close> stays the form's own.
\<close>

definition BookForm_clean :: "form \<Rightarrow> form" where
  "BookForm_clean f =
     (let read_date = cleaned_get (cd_read_date (cleaned_data f));
          published_date = cd_published_date (cleaned_data f)
      in if read_date \<noteq> None \<and> published_date \<noteq> None
            \<and> date_lt (the read_date) (the published_date)
         then add_error ''read_date'' [Text ''The read date must be after the published date''] f
         else f)"

text \<open>
  Modelled from the spec: the validation of the record itself, which \<open>_post_clean\<close> runs on
  the instance built from \<open>cleaned_data\<close> (\<open>bookapp/models.py\<close> is not among the source
  files). Section 4.1: \<open>pages\<close> at least 1 and \<open>rating\<close> within 1 to 5, checked for the
  fields that are still in \<open>cleaned_data\<close>, and the cross-field rule on the instance's
  two dates. The instance is a new one: a field that is not in \<open>cleaned_data\<close> is unset.
\<close>

definition Book_clean_fields :: "cleaned \<Rightarrow> (string \<times> message list) list" where
  "Book_clean_fields cd =
     (case cd_pages cd of
        Some n \<Rightarrow> if n < 1 then [(''pages'', [message_for ''pages'' ''min_value''])] else []
      | None \<Rightarrow> []) @
     (case cd_rating cd of
        Some (Some r) \<Rightarrow>
          if r < 1 then [(''rating'', [message_for ''rating'' ''min_value''])]
          else if 5 < r then [(''rating'', [message_for ''rating'' ''max_value''])]
          else []
      | _ \<Rightarrow> [])"

definition Book_clean :: "date option \<Rightarrow> date option \<Rightarrow> (string \<times> message list) list" where
  "Book_clean self_read_date self_published_date =
     (if self_read_date \<noteq> None \<and> self_published_date \<noteq> None
         \<and> date_lt (the self_read_date) (the self_published_date)
      then [(''read_date'', [Text ''The read date must be after the published date''])]
      else [])"

definition post_clean :: "form \<Rightarrow> form" where
  "post_clean f =
     (let cd = cleaned_data f;
          errs = Book_clean_fields cd
                 @ Book_clean (cleaned_get (cd_read_date cd)) (cd_published_date cd)
      in fold (\<lambda>(field, msgs). add_error field msgs) errs f)"

text \<open>
  \<open>Form.full_clean\<close> of a bound form: the fields, then the form's \<open>clean\<close>, then the
  record's validation; \<open>is_valid\<close> asks whether any field has an error.
\<close>

definition full_clean :: "form_data \<Rightarrow> form" where
  "full_clean d =
     post_clean (BookForm_clean (clean_fields d \<lparr>errors = Map.empty, cleaned_data = empty_cleaned\<rparr>))"

definition form_fields :: "string list" where
  "form_fields = [''title'', ''pages'', ''rating'', ''status'', ''published_date'',
                  ''read_date'', ''cover_image'', ''authors'']"

definition is_valid :: "form_data \<Rightarrow> bool" where
  "is_valid d = list_all (\<lambda>name. errors (full_clean d) name = None) form_fields"

text \<open>
  The rules as the specification words them (section 4.1, with section 4.2 for what the
  form coerces): which submitted data break the rule of which field.
\<close>

definition violates :: "form_data \<Rightarrow> string \<Rightarrow> bool" where
  "violates d field =
     (if field = ''title'' then in_title d = [] \<or> 50 < length (in_title d)
      else if field = ''pages'' then (case in_pages d of Parsed n \<Rightarrow> n < 1 | _ \<Rightarrow> True)
      else if field = ''rating'' then
        (case in_rating d of Blank \<Rightarrow> False | Malformed \<Rightarrow> True | Parsed r \<Rightarrow> r < 1 \<or> 5 < r)
      else if field = ''status'' then (case in_status d of Parsed s \<Rightarrow> False | _ \<Rightarrow> True)
      else if field = ''published_date'' then
        (case in_published_date d of Parsed p \<Rightarrow> False | _ \<Rightarrow> True)
      else if field = ''read_date'' then
        (case in_read_date d of
           Blank \<Rightarrow> False
         | Malformed \<Rightarrow> True
         | Parsed r \<Rightarrow> (case in_published_date d of Parsed p \<Rightarrow> date_lt r p | _ \<Rightarrow> False))
      else if field = ''cover_image'' then in_cover_image d = Malformed
      else if field = ''authors'' then in_authors d = Malformed
      else False)"

section \<open>Access control: who gets which status\<close>

lemma handle_no_permission_simps:
  "handle_no_permission AnonymousUser = RedirectToLogin"
  "handle_no_permission (User ps) = PermissionDenied"
  by (simp_all add: handle_no_permission_def)

lemma dispatch_anonymous: "dispatch v AnonymousUser handler = RedirectToLogin"
  by (cases v)
     (simp_all add: LoginRequiredMixin_dispatch_def PermissionRequiredMixin_dispatch_def
        handle_no_permission_simps)

lemma status_code_get_handler:
  "status_code (get_handler books (BookDetail key))
     = (if get_object books key = None then 404 else 200)"
  "status_code (get_handler books (BookUpdate key))
     = (if get_object books key = None then 404 else 200)"
  "status_code (get_handler books (BookDelete key))
     = (if get_object books key = None then 404 else 200)"
  by (simp_all split: option.split)

text \<open>
  Claim C1, as the code has it. On every gated route an anonymous user gets the redirect to
  the login page, status 302, and nothing of what the handler behind the check would answer
  (not even a redirect of its own, as after a successful POST). A logged-in user
  gets 200 on GET \<open>form\<close>, with or without permissions. Without the change
  permission GET \<open><id>/edit\<close> is answered 403, without the delete permission GET
  \<open><id>/delete\<close> is answered 403. With the permission each of the two, and GET
  \<open><id>/detail\<close> for any logged-in user, is answered 200 when a record with that id
  exists and 404 when none does.
\<close>

theorem gated_routes_access:
  "dispatch v AnonymousUser handler = RedirectToLogin
   \<and> status_code (dispatch v AnonymousUser handler) = 302
   \<and> status_code (http_get books BookCreate (User ps)) = 200
   \<and> (''bookapp.change_book'' \<notin> set ps \<longrightarrow>
        status_code (http_get books (BookUpdate key) (User ps)) = 403)
   \<and> (''bookapp.delete_book'' \<notin> set ps \<longrightarrow>
        status_code (http_get books (BookDelete key) (User ps)) = 403)
   \<and> status_code (http_get books (BookDetail key) (User ps))
        = (if get_object books key = None then 404 else 200)
   \<and> (''bookapp.change_book'' \<in> set ps \<longrightarrow>
        status_code (http_get books (BookUpdate key) (User ps))
        = (if get_object books key = None then 404 else 200))
   \<and> (''bookapp.delete_book'' \<in> set ps \<longrightarrow>
        status_code (http_get books (BookDelete key) (User ps))
        = (if get_object books key = None then 404 else 200))"
proof -
  have login: "dispatch v AnonymousUser handler = RedirectToLogin"
    by (rule dispatch_anonymous)
  have anon: "status_code (dispatch v AnonymousUser handler) = 302"
    by (simp add: dispatch_anonymous)
  have create: "status_code (http_get books BookCreate (User ps)) = 200"
    by (simp add: http_get_def LoginRequiredMixin_dispatch_def)
  have no_change: "status_code (http_get books (BookUpdate key) (User ps)) = 403"
    if "''bookapp.change_book'' \<notin> set ps"
    using that
    by (simp add: http_get_def PermissionRequiredMixin_dispatch_def handle_no_permission_simps)
  have no_delete: "status_code (http_get books (BookDelete key) (User ps)) = 403"
    if "''bookapp.delete_book'' \<notin> set ps"
    using that
    by (simp add: http_get_def PermissionRequiredMixin_dispatch_def handle_no_permission_simps)
  have detail: "status_code (http_get books (BookDetail key) (User ps))
        = (if get_object books key = None then 404 else 200)"
    unfolding http_get_def dispatch.simps LoginRequiredMixin_dispatch_def
    by (simp only: is_authenticated.simps not_True_eq_False if_False status_code_get_handler)
  have change: "status_code (http_get books (BookUpdate key) (User ps))
        = (if get_object books key = None then 404 else 200)"
    if "''bookapp.change_book'' \<in> set ps"
    using that unfolding http_get_def dispatch.simps PermissionRequiredMixin_dispatch_def
    by (simp only: has_perm.simps not_not if_False status_code_get_handler simp_thms)
  have delete: "status_code (http_get books (BookDelete key) (User ps))
        = (if get_object books key = None then 404 else 200)"
    if "''bookapp.delete_book'' \<in> set ps"
    using that unfolding http_get_def dispatch.simps PermissionRequiredMixin_dispatch_def
    by (simp only: has_perm.simps not_not if_False status_code_get_handler simp_thms)
  from login anon create no_change no_delete detail change delete show ?thesis
    by (intro conjI impI)
qed

text \<open>
  The theorem at a table with one record, id 1: a user who holds only the add permission,
  a user with the three permissions the tests give their admin, and an anonymous POST to
  \<open>1/delete\<close>.
\<close>

theorem gated_routes_access_witness:
  "''bookapp.change_book'' \<notin> set [''bookapp.add_book'']
   \<and> ''bookapp.delete_book'' \<notin> set [''bookapp.add_book'']
   \<and> ''bookapp.change_book'' \<in> set [''bookapp.add_book'', ''bookapp.change_book'', ''bookapp.delete_book'']
   \<and> ''bookapp.delete_book'' \<in> set [''bookapp.add_book'', ''bookapp.change_book'', ''bookapp.delete_book'']
   \<and> dispatch (BookDelete 1) AnonymousUser (RedirectTo ''book_list'') = RedirectToLogin
   \<and> status_code (dispatch (BookDelete 1) AnonymousUser (RedirectTo ''book_list'')) = 302
   \<and> status_code (http_get
         [\<lparr>pk = 1, title = ''Test Book'', pages = 200, rating = None, status = ''FI'',
           published_date = Date 2020 1 1, read_date = None, cover_image = None, authors = []\<rparr>]
         (BookUpdate 1) (User [''bookapp.add_book''])) = 403
   \<and> status_code (http_get
         [\<lparr>pk = 1, title = ''Test Book'', pages = 200, rating = None, status = ''FI'',
           published_date = Date 2020 1 1, read_date = None, cover_image = None, authors = []\<rparr>]
         (BookDelete 1) (User [''bookapp.add_book''])) = 403
   \<and> status_code (http_get
         [\<lparr>pk = 1, title = ''Test Book'', pages = 200, rating = None, status = ''FI'',
           published_date = Date 2020 1 1, read_date = None, cover_image = None, authors = []\<rparr>]
         (BookUpdate 1)
         (User [''bookapp.add_book'', ''bookapp.change_book'', ''bookapp.delete_book''])) = 200
   \<and> status_code (http_get
         [\<lparr>pk = 1, title = ''Test Book'', pages = 200, rating = None, status = ''FI'',
           published_date = Date 2020 1 1, read_date = None, cover_image = None, authors = []\<rparr>]
         (BookDelete 1)
         (User [''bookapp.add_book'', ''bookapp.change_book'', ''bookapp.delete_book''])) = 200"
  using
    gated_routes_access
      [of "BookDelete 1" "RedirectTo ''book_list''"
        "[\<lparr>pk = 1, title = ''Test Book'', pages = 200, rating = None, status = ''FI'',
           published_date = Date 2020 1 1, read_date = None, cover_image = None, authors = []\<rparr>]"
        "[''bookapp.add_book'']" 1]
    gated_routes_access
      [of "BookDelete 1" "RedirectTo ''book_list''"
        "[\<lparr>pk = 1, title = ''Test Book'', pages = 200, rating = None, status = ''FI'',
           published_date = Date 2020 1 1, read_date = None, cover_image = None, authors = []\<rparr>]"
        "[''bookapp.add_book'', ''bookapp.change_book'', ''bookapp.delete_book'']" 1]
  by (simp add: get_object_def)

text \<open>
  Claim C1 as the specification words it gives a permitted user 200 on all gated routes.
  On an empty table the permitted user's GET \<open>1/edit\<close> is answered 404.
\<close>

theorem permitted_get_missing_record_counterexample:
  "status_code (http_get [] (BookUpdate 1)
      (User [''bookapp.add_book'', ''bookapp.change_book'', ''bookapp.delete_book''])) = 404"
  by (simp add: http_get_def PermissionRequiredMixin_dispatch_def get_object_def)

section \<open>The list view: ordering and filtering\<close>






lemma whitelist_resolves:
  "k \<in> set VALID_ORDER_FIELDS \<Longrightarrow> removeprefix_minus k \<in> set Book_columns"
  by (auto simp: VALID_ORDER_FIELDS_def removeprefix_minus_def Book_columns_def)

lemma title_whitelisted: "''title'' \<in> set VALID_ORDER_FIELDS"
  by (simp add: VALID_ORDER_FIELDS_def)

lemma sanitized_whitelisted:
  "(if r \<notin> set VALID_ORDER_FIELDS then ''title'' else r) \<in> set VALID_ORDER_FIELDS"
  by (simp add: title_whitelisted)

lemma book_list_Inr:
  "book_list GET books =
     Inr \<lparr>ctx_page_obj =
            get_page books
              \<lparr>object_list =
                 \<lparr>qs_where = (if dict_get GET ''title'' [] \<noteq> []
                               then [title__icontains (dict_get GET ''title'' [])] else []),
                  qs_order = Some (if dict_get GET ''order_by'' ''title'' \<notin> set VALID_ORDER_FIELDS
                                   then ''title'' else dict_get GET ''order_by'' ''title'')\<rparr>,
               per_page = 5\<rparr>
              (GET ''page''),
          ctx_title_filter = dict_get GET ''title'' [],
          ctx_order_by = (if dict_get GET ''order_by'' ''title'' \<notin> set VALID_ORDER_FIELDS
                          then ''title'' else dict_get GET ''order_by'' ''title'')\<rparr>"
proof -
  let ?k = "if dict_get GET ''order_by'' ''title'' \<notin> set VALID_ORDER_FIELDS
            then ''title'' else dict_get GET ''order_by'' ''title''"
  have "removeprefix_minus ?k \<in> set Book_columns"
    by (rule whitelist_resolves) (rule sanitized_whitelisted)
  then have ok: "QuerySet_order_by ?k qs = Inr (qs\<lparr>qs_order := Some ?k\<rparr>)" for qs
    by (simp add: QuerySet_order_by_def)
  show ?thesis
    unfolding book_list_def Let_def ok
    by (simp add: objects_all_def QuerySet_filter_def)
qed

lemma page_paginator_get_page: "page_paginator (get_page books p num) = p"
  by (simp add: get_page_def Let_def)

text \<open>
  Claim C3. For every request and every table \<open>book_list\<close> returns a context, never an
  error. The key that orders the query set handed to the paginator is one of the ten
  values of \<open>VALID_ORDER_FIELDS\<close>; when the requested \<open>order_by\<close> is not one of them,
  that key is \<open>title\<close> and the rows come in ascending order of the title.
\<close>

theorem book_list_ordering_whitelisted:
  "\<exists>ctx k. book_list GET books = Inr ctx
     \<and> qs_order (object_list (page_paginator (ctx_page_obj ctx))) = Some k
     \<and> k \<in> set VALID_ORDER_FIELDS
     \<and> (\<forall>r. GET ''order_by'' = Some r \<and> r \<notin> set VALID_ORDER_FIELDS \<longrightarrow>
            k = ''title''
            \<and> sorted (map title (fetch books (object_list (page_paginator (ctx_page_obj ctx))))))"
proof -
  let ?k = "if dict_get GET ''order_by'' ''title'' \<notin> set VALID_ORDER_FIELDS
            then ''title'' else dict_get GET ''order_by'' ''title''"
  obtain ctx where ctx: "book_list GET books = Inr ctx"
    and ord: "qs_order (object_list (page_paginator (ctx_page_obj ctx))) = Some ?k"
    by (simp add: book_list_Inr page_paginator_get_page)
  have "?k \<in> set VALID_ORDER_FIELDS" by (rule sanitized_whitelisted)
  moreover have "?k = ''title''
      \<and> sorted (map title (fetch books (object_list (page_paginator (ctx_page_obj ctx)))))"
    if "GET ''order_by'' = Some r" and "r \<notin> set VALID_ORDER_FIELDS" for r
  proof -
    from that have k: "?k = ''title''" by (simp add: dict_get_def)
    with ord have "fetch books (object_list (page_paginator (ctx_page_obj ctx)))
        = sort_key title (filter (\<lambda>b. list_all (\<lambda>l. matches l b)
            (qs_where (object_list (page_paginator (ctx_page_obj ctx))))) books)"
      by (simp add: fetch_def order_rows_def is_descending_def ascending_def)
    with k show ?thesis by simp
  qed
  ultimately show ?thesis using ctx ord by blast
qed


text \<open>The theorem at \<open>order_by=bogus_value\<close>.\<close>

theorem book_list_ordering_whitelisted_witness:
  "[''order_by'' \<mapsto> ''bogus_value''] ''order_by'' = Some ''bogus_value''
   \<and> ''bogus_value'' \<notin> set VALID_ORDER_FIELDS
   \<and> (\<exists>ctx. book_list [''order_by'' \<mapsto> ''bogus_value''] [] = Inr ctx
          \<and> qs_order (object_list (page_paginator (ctx_page_obj ctx))) = Some ''title'')"
proof -
  have given: "[''order_by'' \<mapsto> ''bogus_value''] ''order_by'' = Some ''bogus_value''"
    by simp
  have bogus: "''bogus_value'' \<notin> set VALID_ORDER_FIELDS"
    by (simp add: VALID_ORDER_FIELDS_def)
  from book_list_ordering_whitelisted [of "[''order_by'' \<mapsto> ''bogus_value'']" "[]"]
  obtain ctx k where "book_list [''order_by'' \<mapsto> ''bogus_value''] [] = Inr ctx"
    and "qs_order (object_list (page_paginator (ctx_page_obj ctx))) = Some k"
    and "\<forall>r. [''order_by'' \<mapsto> ''bogus_value''] ''order_by'' = Some r
              \<and> r \<notin> set VALID_ORDER_FIELDS \<longrightarrow> k = ''title''
              \<and> sorted (map title (fetch [] (object_list (page_paginator (ctx_page_obj ctx)))))"
    by blast
  with given bogus show ?thesis by blast
qed

text \<open>
  Claim C9. The \<open>order_by\<close> entry of the rendered context is always one of the ten
  values of \<open>VALID_ORDER_FIELDS\<close>: a requested key of the list is echoed as it is, any
  other one (and a missing one) is echoed as \<open>title\<close>.
\<close>

theorem book_list_echoes_whitelisted:
  "\<exists>ctx. book_list GET books = Inr ctx
     \<and> ctx_order_by ctx \<in> set VALID_ORDER_FIELDS
     \<and> (\<forall>r. GET ''order_by'' = Some r \<longrightarrow>
            ctx_order_by ctx = (if r \<in> set VALID_ORDER_FIELDS then r else ''title''))
     \<and> (GET ''order_by'' = None \<longrightarrow> ctx_order_by ctx = ''title'')"
proof -
  let ?k = "if dict_get GET ''order_by'' ''title'' \<notin> set VALID_ORDER_FIELDS
            then ''title'' else dict_get GET ''order_by'' ''title''"
  obtain ctx where ctx: "book_list GET books = Inr ctx" and echo: "ctx_order_by ctx = ?k"
    by (simp add: book_list_Inr)
  have "ctx_order_by ctx \<in> set VALID_ORDER_FIELDS"
    unfolding echo by (rule sanitized_whitelisted)
  moreover have "\<forall>r. GET ''order_by'' = Some r \<longrightarrow>
      ctx_order_by ctx = (if r \<in> set VALID_ORDER_FIELDS then r else ''title'')"
    by (simp add: echo dict_get_def)
  moreover have "GET ''order_by'' = None \<longrightarrow> ctx_order_by ctx = ''title''"
    by (simp add: echo dict_get_def title_whitelisted)
  ultimately show ?thesis using ctx by (intro exI [of _ ctx]) (simp only: simp_thms)
qed

text \<open>The theorem at an injected key and at a request without \<open>order_by\<close>.\<close>

theorem book_list_echoes_whitelisted_witness:
  "[''order_by'' \<mapsto> ''pages; DROP TABLE''] ''order_by'' = Some ''pages; DROP TABLE''
   \<and> (\<exists>ctx. book_list [''order_by'' \<mapsto> ''pages; DROP TABLE''] [] = Inr ctx
          \<and> ctx_order_by ctx = ''title'')
   \<and> Map.empty ''order_by'' = (None :: string option)
   \<and> (\<exists>ctx. book_list Map.empty [] = Inr ctx \<and> ctx_order_by ctx = ''title'')"
proof -
  have given: "[''order_by'' \<mapsto> ''pages; DROP TABLE''] ''order_by'' = Some ''pages; DROP TABLE''"
    by simp
  have bad: "''pages; DROP TABLE'' \<notin> set VALID_ORDER_FIELDS"
    by (simp add: VALID_ORDER_FIELDS_def)
  have absent: "Map.empty ''order_by'' = (None :: string option)"
    by simp
  from book_list_echoes_whitelisted [of "[''order_by'' \<mapsto> ''pages; DROP TABLE'']" "[]"]
  obtain c1 where c1: "book_list [''order_by'' \<mapsto> ''pages; DROP TABLE''] [] = Inr c1"
    and "\<forall>r. [''order_by'' \<mapsto> ''pages; DROP TABLE''] ''order_by'' = Some r \<longrightarrow>
           ctx_order_by c1 = (if r \<in> set VALID_ORDER_FIELDS then r else ''title'')"
    by blast
  with given bad have e1: "ctx_order_by c1 = ''title''"
    by simp
  from book_list_echoes_whitelisted [of Map.empty "[]"] absent
  obtain c2 where c2: "book_list Map.empty [] = Inr c2" and e2: "ctx_order_by c2 = ''title''"
    by blast
  from given absent c1 e1 c2 e2 show ?thesis by blast
qed









section \<open>The statistics view: the aggregates\<close>

lemma order_by_column:
  "col \<in> set Book_columns \<Longrightarrow> QuerySet_order_by col qs = Inr (qs\<lparr>qs_order := Some col\<rparr>)"
  by (auto simp: QuerySet_order_by_def removeprefix_minus_def Book_columns_def)

lemma order_by_pages_desc:
  "QuerySet_order_by ''-pages'' qs = Inr (qs\<lparr>qs_order := Some ''-pages''\<rparr>)"
  by (simp add: QuerySet_order_by_def removeprefix_minus_def Book_columns_def)

lemma fetch_all: "fetch books objects_all = books"
  by (simp add: fetch_def objects_all_def)

lemma fetch_rated:
  "fetch books (QuerySet_filter (rating__isnull False) objects_all\<lparr>qs_order := Some ''rating''\<rparr>)
     = sort_key rating (filter (\<lambda>b. rating b \<noteq> None) books)"
  by (simp add: fetch_def objects_all_def QuerySet_filter_def order_rows_def is_descending_def
        ascending_def)

lemma stats_rating_data_eq:
  "stats_rating_data books
     = Inr (values_count rating (sort_key rating (filter (\<lambda>b. rating b \<noteq> None) books)))"
  by (simp add: stats_rating_data_def order_by_column Book_columns_def fetch_rated)

lemma stats_max_pages_eq:
  "stats_max_pages books = Inr (case rev (sort_key pages books) of [] \<Rightarrow> None | b # rest \<Rightarrow> Some b)"
  by (simp add: stats_max_pages_def order_by_pages_desc QuerySet_first_def fetch_def
        objects_all_def order_rows_def is_descending_def removeprefix_minus_def ascending_def)

lemma stats_min_pages_eq:
  "stats_min_pages books = Inr (case sort_key pages books of [] \<Rightarrow> None | b # rest \<Rightarrow> Some b)"
  by (simp add: stats_min_pages_def order_by_column Book_columns_def QuerySet_first_def fetch_def
        objects_all_def order_rows_def is_descending_def ascending_def)

lemma json_dumps_empty: "json_dumps_strs [] = ''[]''" "json_dumps_ints [] = ''[]''"
  by (simp_all add: json_dumps_strs_def json_dumps_ints_def json_list_def)

text \<open>
  Claim C10. On the empty table \<open>stats\<close> returns a context and no error, whatever the
  floating-point operations are: the record with most pages and the one with fewest are
  both \<open>None\<close>, both means are the integer 0, and the sequences of status and rating
  labels and counts are empty, so each is rendered as the JSON text \<open>[]\<close>.
\<close>

theorem stats_empty_store:
  "stats ops [] = Inr \<lparr>ctx_max_pages = None, ctx_min_pages = None,
                  ctx_avg_pages = PyInt 0, ctx_avg_rating = PyInt 0,
                  ctx_status_labels = ''[]'', ctx_status_counts = ''[]'',
                  ctx_rating_labels = ''[]'', ctx_rating_counts = ''[]''\<rparr>
   \<and> stats_max_pages [] = Inr None
   \<and> stats_min_pages [] = Inr None
   \<and> map fst (stats_status_data []) = [] \<and> map snd (stats_status_data []) = []
   \<and> stats_rating_data [] = Inr []"
proof -
  have status: "stats_status_data [] = []"
    by (simp add: stats_status_data_def fetch_all values_count_def)
  have rated: "stats_rating_data [] = Inr []"
    by (simp add: stats_rating_data_eq values_count_def)
  have avgs: "stats_avg_pages ops [] = PyInt 0" "stats_avg_rating ops [] = PyInt 0"
    by (simp_all add: stats_avg_pages_def stats_avg_rating_def fetch_all aggregate_Avg_def
          List.map_filter_simps or_0_def)
  have "stats ops [] = Inr \<lparr>ctx_max_pages = None, ctx_min_pages = None,
                  ctx_avg_pages = PyInt 0, ctx_avg_rating = PyInt 0,
                  ctx_status_labels = ''[]'', ctx_status_counts = ''[]'',
                  ctx_rating_labels = ''[]'', ctx_rating_counts = ''[]''\<rparr>"
    by (simp add: stats_def stats_max_pages_eq stats_min_pages_eq rated status avgs
          json_dumps_empty)
  then show ?thesis
    by (simp add: stats_max_pages_eq stats_min_pages_eq status rated)
qed


lemma values_count_keys: "map fst (values_count col rows) = remdups (map col rows)"
  by (simp add: values_count_def comp_def)

lemma values_count_entry:
  "d \<in> set (values_count col rows) \<Longrightarrow>
     fst d \<in> col ` set rows \<and> snd d = length (filter (\<lambda>b. col b = fst d) rows)"
  by (auto simp: values_count_def)

lemma sum_group_sizes:
  "finite A \<Longrightarrow> col ` set rows \<subseteq> A \<Longrightarrow>
     (\<Sum>k\<in>A. length (filter (\<lambda>b. col b = k) rows)) = length rows"
proof (induction rows)
  case Nil
  show ?case by simp
next
  case (Cons b rows)
  then have "(\<Sum>k\<in>A. length (filter (\<lambda>b. col b = k) rows)) = length rows"
    and "col b \<in> A"
    by simp_all
  moreover have "(\<Sum>k\<in>A. length (filter (\<lambda>x. col x = k) (b # rows)))
      = (\<Sum>k\<in>A. (if col b = k then 1 else 0) + length (filter (\<lambda>x. col x = k) rows))"
    by (rule sum.cong) simp_all
  ultimately show ?case using \<open>finite A\<close>
    by (simp add: sum.distrib)
qed

lemma values_count_total: "sum_list (map snd (values_count col rows)) = length rows"
proof -
  have "sum_list (map snd (values_count col rows))
      = (\<Sum>k\<in>set (remdups (map col rows)). length (filter (\<lambda>b. col b = k) rows))"
    by (simp add: values_count_def comp_def sum_list_distinct_conv_sum_set)
  also have "\<dots> = length rows"
    by (rule sum_group_sizes) simp_all
  finally show ?thesis .
qed

lemma length_filter_sort_key:
  "length (filter P (sort_key f xs)) = length (filter P xs)"
  by (simp add: filter_sort)

lemma filter_rated_Some:
  "filter (\<lambda>b. rating b = Some n) (filter (\<lambda>b. rating b \<noteq> None) books)
     = filter (\<lambda>b. rating b = Some n) books"
  by (induction books) auto

lemma stats_rating_context:
  "stats_rating_data books = Inr rd \<Longrightarrow>
   \<exists>ctx. stats ops books = Inr ctx
     \<and> ctx_rating_labels ctx = json_dumps_strs (map (\<lambda>d. str_opt (fst d)) rd)
     \<and> ctx_rating_counts ctx = json_dumps_ints (map (\<lambda>d. int (snd d)) rd)"
  by (simp add: stats_def stats_max_pages_eq stats_min_pages_eq comp_def)

text \<open>
  Claim C7. For every table, and whatever the floating-point operations are, the rating
  distribution of \<open>stats\<close> is a list of pairs of a
  rating and a count whose ratings strictly ascend. Every pair carries a non-null rating
  and the positive number of records with exactly that rating; every rated record's
  rating has a pair; the counts add up to the number of rated records, so a record without
  rating is counted nowhere. The context's labels and counts are the JSON texts of the two
  columns of this list.
\<close>

theorem rating_distribution:
  "\<exists>rating_data ctx.
     stats_rating_data books = Inr rating_data \<and> stats ops books = Inr ctx
     \<and> ctx_rating_labels ctx = json_dumps_strs (map (\<lambda>d. str_opt (fst d)) rating_data)
     \<and> ctx_rating_counts ctx = json_dumps_ints (map (\<lambda>d. int (snd d)) rating_data)
     \<and> sorted_wrt (\<lambda>d e. fst d < fst e) rating_data
     \<and> (\<forall>d \<in> set rating_data. \<exists>n. fst d = Some n \<and> 0 < snd d
            \<and> snd d = length (filter (\<lambda>b. rating b = Some n) books))
     \<and> (\<forall>b \<in> set books. rating b \<noteq> None \<longrightarrow> rating b \<in> fst ` set rating_data)
     \<and> sum_list (map snd rating_data) = length (filter (\<lambda>b. rating b \<noteq> None) books)"
proof -
  let ?rated = "filter (\<lambda>b. rating b \<noteq> None) books"
  let ?rows = "sort_key rating ?rated"
  let ?rd = "values_count rating ?rows"
  have rd: "stats_rating_data books = Inr ?rd"
    by (rule stats_rating_data_eq)
  from stats_rating_context [OF rd, of ops] obtain ctx where ctx: "stats ops books = Inr ctx"
    and labels: "ctx_rating_labels ctx = json_dumps_strs (map (\<lambda>d. str_opt (fst d)) ?rd)"
    and counts: "ctx_rating_counts ctx = json_dumps_ints (map (\<lambda>d. int (snd d)) ?rd)"
    by blast
  have "sorted (map fst ?rd)" "distinct (map fst ?rd)"
    by (simp_all add: values_count_keys sorted_remdups)
  then have "sorted_wrt (<) (map fst ?rd)"
    by (simp add: strict_sorted_iff)
  then have ascending: "sorted_wrt (\<lambda>d e. fst d < fst e) ?rd"
    by (simp add: sorted_wrt_map)
  have entries: "\<exists>n. fst d = Some n \<and> 0 < snd d
      \<and> snd d = length (filter (\<lambda>b. rating b = Some n) books)" if "d \<in> set ?rd" for d
  proof -
    from values_count_entry [OF that]
    have key: "fst d \<in> rating ` set ?rows"
      and cnt: "snd d = length (filter (\<lambda>b. rating b = fst d) ?rows)"
      by simp_all
    from key obtain b where b: "b \<in> set books" "rating b \<noteq> None" "fst d = rating b"
      by auto
    then obtain n where n: "fst d = Some n" by auto
    have "snd d = length (filter (\<lambda>b. rating b = Some n) books)"
      by (simp only: cnt n length_filter_sort_key filter_rated_Some)
    moreover have "b \<in> set (filter (\<lambda>b. rating b = Some n) books)"
      using b n by simp
    then have "0 < length (filter (\<lambda>b. rating b = Some n) books)"
      by (rule length_pos_if_in_set)
    ultimately show ?thesis using n by simp
  qed
  have covered: "rating b \<in> fst ` set ?rd" if "b \<in> set books" "rating b \<noteq> None" for b
  proof -
    have "set (map fst ?rd) = rating ` set ?rated"
      by (simp add: values_count_keys)
    with that show ?thesis by auto
  qed
  have total: "sum_list (map snd ?rd) = length ?rated"
    by (simp add: values_count_total)
  show ?thesis
    using rd ctx labels counts ascending entries covered total
    by (intro exI [of _ ?rd] exI [of _ ctx] conjI ballI impI) blast+
qed


text \<open>
  The theorem on four records rated 4, unrated, 2 and 4: the distribution is one record
  rated 2 and two rated 4.
\<close>

theorem rating_distribution_witness:
  "stats_rating_data
     [\<lparr>pk = 1, title = ''A'', pages = 200, rating = Some 4, status = ''FI'',
       published_date = Date 2020 1 1, read_date = None, cover_image = None, authors = []\<rparr>,
      \<lparr>pk = 2, title = ''B'', pages = 100, rating = None, status = ''PE'',
       published_date = Date 2020 1 1, read_date = None, cover_image = None, authors = []\<rparr>,
      \<lparr>pk = 3, title = ''C'', pages = 50, rating = Some 2, status = ''FI'',
       published_date = Date 2020 1 1, read_date = None, cover_image = None, authors = []\<rparr>,
      \<lparr>pk = 4, title = ''D'', pages = 10, rating = Some 4, status = ''FI'',
       published_date = Date 2020 1 1, read_date = None, cover_image = None, authors = []\<rparr>]
     = Inr [(Some 2, 1), (Some 4, 2)]
   \<and> sorted_wrt (\<lambda>d e. fst d < fst e) [(Some (2::int), 1::nat), (Some 4, 2)]
   \<and> sum_list (map snd [(Some (2::int), 1::nat), (Some 4, 2)]) = 3"
proof -
  let ?S = "[\<lparr>pk = 1, title = ''A'', pages = 200, rating = Some 4, status = ''FI'',
       published_date = Date 2020 1 1, read_date = None, cover_image = None, authors = []\<rparr>,
      \<lparr>pk = 2, title = ''B'', pages = 100, rating = None, status = ''PE'',
       published_date = Date 2020 1 1, read_date = None, cover_image = None, authors = []\<rparr>,
      \<lparr>pk = 3, title = ''C'', pages = 50, rating = Some 2, status = ''FI'',
       published_date = Date 2020 1 1, read_date = None, cover_image = None, authors = []\<rparr>,
      \<lparr>pk = 4, title = ''D'', pages = 10, rating = Some 4, status = ''FI'',
       published_date = Date 2020 1 1, read_date = None, cover_image = None, authors = []\<rparr>]"
  have run: "stats_rating_data ?S = Inr [(Some 2, 1), (Some 4, 2)]"
    by code_simp
  have rated: "length (filter (\<lambda>b. rating b \<noteq> None) ?S) = 3"
    by simp
  from rating_distribution [of ?S] obtain rd
    where "stats_rating_data ?S = Inr rd"
      and "sorted_wrt (\<lambda>d e. fst d < fst e) rd"
      and "sum_list (map snd rd) = length (filter (\<lambda>b. rating b \<noteq> None) ?S)"
    by blast
  with run rated show ?thesis
    by simp
qed

text \<open>The context of the empty table, read field by field.\<close>

theorem stats_empty_store_witness:
  "\<exists>ctx. stats double_ops [] = Inr ctx \<and> ctx_max_pages ctx = None \<and> ctx_min_pages ctx = None
     \<and> ctx_avg_pages ctx = PyInt 0 \<and> ctx_avg_rating ctx = PyInt 0
     \<and> ctx_status_labels ctx = ''[]'' \<and> ctx_rating_counts ctx = ''[]''"
  using stats_empty_store [of double_ops] by simp

section \<open>The statistics view: the means\<close>

lemma round_half_even_near: "\<bar>of_int (round_half_even x) - x\<bar> \<le> 1 / 2"
proof -
  have "of_int \<lfloor>x\<rfloor> \<le> x" and "x < of_int \<lfloor>x\<rfloor> + 1"
    by linarith+
  then show ?thesis
    unfolding round_half_even_def Let_def
    by (auto simp: abs_le_iff)
qed

lemma pow2_pos: "0 < pow2 e"
  by (simp add: pow2_def)

lemma pow2_Suc: "pow2 (e + 1) = 2 * pow2 e"
proof (cases "0 \<le> e")
  case True
  then show ?thesis
    by (simp add: pow2_def nat_add_distrib)
next
  case False
  then have "nat (- e) = Suc (nat (- (e + 1)))"
    by simp
  then have "(2::rat) ^ nat (- e) = 2 * 2 ^ nat (- (e + 1))"
    by simp
  with False show ?thesis
    by (simp add: pow2_def)
qed

lemma pow2_add_nat: "pow2 (e + int n) = 2 ^ n * pow2 e"
proof (induction n)
  case 0
  show ?case by simp
next
  case (Suc n)
  have "pow2 (e + int (Suc n)) = pow2 ((e + int n) + 1)"
    by (simp add: ac_simps)
  also have "\<dots> = 2 * pow2 (e + int n)"
    by (rule pow2_Suc)
  finally show ?case
    by (simp add: Suc.IH)
qed

lemma pow2_diff: "pow2 (int a - int b) = 2 ^ a / 2 ^ b"
proof -
  have "pow2 (int a - int b + int b) = 2 ^ b * pow2 (int a - int b)"
    by (rule pow2_add_nat)
  moreover have "pow2 (int a) = 2 ^ a"
    by (simp add: pow2_def)
  ultimately show ?thesis
    by (simp add: field_simps)
qed

text \<open>\<open>floor_log2 x\<close> is the exponent of \<open>x\<close>: the power of two at or below it.\<close>

lemma floor_log2_bounds:
  assumes "0 < x"
  shows "pow2 (floor_log2 x) \<le> x \<and> x < pow2 (floor_log2 x + 1)"
proof -
  obtain p q where pq: "quotient_of x = (p, q)"
    by (cases "quotient_of x")
  then have q: "0 < q" and x: "x = of_int p / of_int q"
    by (simp_all add: quotient_of_denom_pos quotient_of_div)
  from assms q x have p: "0 < p"
    by (simp add: zero_less_divide_iff)
  define a where "a = nat (bitlen p - 1)"
  define b where "b = nat (bitlen q - 1)"
  from p q have "bitlen p \<noteq> 0" "bitlen q \<noteq> 0"
    by (simp_all add: bitlen_eq_zero_iff)
  with bitlen_nonneg [of p] bitlen_nonneg [of q]
  have lens: "bitlen p = int a + 1" "bitlen q = int b + 1"
    by (simp_all add: a_def b_def)
  have na: "nat (bitlen p) = a + 1" and nb: "nat (bitlen q) = b + 1"
    by (simp_all add: lens)
  from bitlen_bounds [OF p] have pb: "2 ^ a \<le> p" "p < 2 ^ (a + 1)"
    unfolding a_def [symmetric] na by simp_all
  from bitlen_bounds [OF q] have qb: "2 ^ b \<le> q" "q < 2 ^ (b + 1)"
    unfolding b_def [symmetric] nb by simp_all
  have d: "bitlen p - bitlen q = int a - int b"
    by (simp add: lens)
  have "(of_int (2 ^ a) :: rat) \<le> of_int p" "(of_int p :: rat) < of_int (2 ^ (a + 1))"
    using pb by (simp_all only: of_int_le_iff of_int_less_iff)
  then have pr: "(2::rat) ^ a \<le> of_int p" "(of_int p :: rat) < 2 ^ (a + 1)"
    by simp_all
  have "(of_int (2 ^ b) :: rat) \<le> of_int q" "(of_int q :: rat) < of_int (2 ^ (b + 1))"
    using qb by (simp_all only: of_int_le_iff of_int_less_iff)
  then have qr: "(2::rat) ^ b \<le> of_int q" "(of_int q :: rat) < 2 ^ (b + 1)"
    by simp_all
  have qpos: "(0::rat) < of_int q"
    using q by simp
  have lower: "pow2 (int a - int b - 1) \<le> x"
  proof -
    have "pow2 (int a - int b - 1 + 1) = 2 * pow2 (int a - int b - 1)"
      by (rule pow2_Suc)
    then have "pow2 (int a - int b - 1) = 2 ^ a / 2 ^ (b + 1)"
      by (simp add: pow2_diff)
    also have "\<dots> \<le> of_int p / of_int q"
      using pr(1) qr(2) qpos p by (intro frac_le) simp_all
    finally show ?thesis
      by (simp add: x)
  qed
  have upper: "x < pow2 (int a - int b + 1)"
  proof -
    have "of_int p / of_int q < (2::rat) ^ (a + 1) / 2 ^ b"
      using pr(2) qr(1) qpos p by (intro frac_less) simp_all
    also have "\<dots> = pow2 (int a - int b + 1)"
      by (simp add: pow2_Suc pow2_diff)
    finally show ?thesis
      by (simp add: x)
  qed
  show ?thesis
  proof (cases "pow2 (int a - int b) \<le> x")
    case True
    with upper show ?thesis
      by (simp add: floor_log2_def pq d)
  next
    case False
    then have "x < pow2 (int a - int b - 1 + 1)"
      by simp
    with False lower show ?thesis
      by (simp add: floor_log2_def pq d)
  qed
qed

text \<open>
  Rounding to a double moves a number by at most half a unit in the last place, which is
  at most the \<open>2 ^ 53\<close>-th part of the number.
\<close>

lemma to_double_near: "\<bar>to_double x - x\<bar> \<le> \<bar>x\<bar> / 2 ^ 53"
proof (cases "x = 0")
  case True
  then show ?thesis
    by (simp add: to_double_def)
next
  case False
  define e where "e = floor_log2 \<bar>x\<bar>"
  define ulp where "ulp = pow2 (e - 52)"
  from False have "0 < \<bar>x\<bar>"
    by simp
  from floor_log2_bounds [OF this] have low: "pow2 e \<le> \<bar>x\<bar>"
    by (simp add: e_def)
  have ulp: "0 < ulp"
    by (simp add: ulp_def pow2_pos)
  have "pow2 (e - 52 + int 52) = 2 ^ 52 * pow2 (e - 52)"
    by (rule pow2_add_nat)
  then have pe: "pow2 e = 2 ^ 52 * ulp"
    by (simp add: ulp_def)
  have td: "to_double x = of_int (round_half_even (x / ulp)) * ulp"
    using False by (simp add: to_double_def e_def ulp_def Let_def)
  have "\<bar>of_int (round_half_even (x / ulp)) - x / ulp\<bar> \<le> 1 / 2"
    by (rule round_half_even_near)
  then have "\<bar>of_int (round_half_even (x / ulp)) - x / ulp\<bar> * ulp \<le> 1 / 2 * ulp"
    using ulp by (intro mult_right_mono) simp_all
  moreover have "\<bar>of_int (round_half_even (x / ulp)) - x / ulp\<bar> * ulp
      = \<bar>of_int (round_half_even (x / ulp)) * ulp - x\<bar>"
  proof -
    have "(of_int (round_half_even (x / ulp)) - x / ulp) * ulp
        = of_int (round_half_even (x / ulp)) * ulp - x"
      using ulp by (simp add: left_diff_distrib)
    then have "\<bar>of_int (round_half_even (x / ulp)) * ulp - x\<bar>
        = \<bar>(of_int (round_half_even (x / ulp)) - x / ulp) * ulp\<bar>"
      by simp
    also have "\<dots> = \<bar>of_int (round_half_even (x / ulp)) - x / ulp\<bar> * \<bar>ulp\<bar>"
      by (rule abs_mult)
    finally show ?thesis
      using ulp by simp
  qed
  ultimately have "\<bar>to_double x - x\<bar> \<le> ulp / 2"
    by (simp add: td)
  also have "ulp / 2 = pow2 e / 2 ^ 53"
    by (simp add: pe)
  also have "\<dots> \<le> \<bar>x\<bar> / 2 ^ 53"
    using low by (simp add: divide_right_mono)
  finally show ?thesis .
qed

text \<open>Two roundings in a row, and a rounding to hundredths followed by one to a double.\<close>

lemma p53: "(2::rat) ^ 53 = 9007199254740992"
  by simp

lemma p50: "(2::rat) ^ 50 = 1125899906842624"
  by simp

lemma two_roundings:
  fixes A m r :: rat
  assumes "\<bar>A - m\<bar> \<le> \<bar>m\<bar> / 2 ^ 53" and "\<bar>r - A\<bar> \<le> \<bar>A\<bar> / 2 ^ 53"
  shows "\<bar>r - m\<bar> \<le> 3 * \<bar>m\<bar> / 2 ^ 53"
proof -
  have chain: "z \<le> 3 * u / 2 ^ 53"
    if "z \<le> y + x" and "v \<le> u + x" and "x \<le> u / 2 ^ 53" and "y \<le> v / 2 ^ 53" and "0 \<le> u"
    for x y z u v :: rat
    using that unfolding p53 p50 add_divide_distrib by linarith
  have "\<bar>r - m\<bar> \<le> \<bar>r - A\<bar> + \<bar>A - m\<bar>" and "\<bar>A\<bar> \<le> \<bar>m\<bar> + \<bar>A - m\<bar>"
    by linarith+
  then show ?thesis
    using assms by (rule chain) simp
qed

lemma hundredth_then_double:
  fixes a c d :: rat
  assumes "\<bar>c - a\<bar> \<le> 1 / 200" and "\<bar>d - c\<bar> \<le> \<bar>c\<bar> / 2 ^ 53"
  shows "\<bar>d - a\<bar> \<le> 1 / 200 + (\<bar>a\<bar> + 1) / 2 ^ 53"
proof -
  have chain: "z \<le> 1 / 200 + (u + 1) / 2 ^ 53"
    if "z \<le> y + x" and "v \<le> u + x" and "x \<le> 1 / 200" and "y \<le> v / 2 ^ 53"
    for x y z u v :: rat
    using that unfolding p53 p50 add_divide_distrib by linarith
  have "\<bar>d - a\<bar> \<le> \<bar>d - c\<bar> + \<bar>c - a\<bar>" and "\<bar>c\<bar> \<le> \<bar>a\<bar> + \<bar>c - a\<bar>"
    by linarith+
  then show ?thesis
    using assms by (rule chain)
qed

lemma mean_then_round:
  fixes a m v :: rat
  assumes "\<bar>a - m\<bar> \<le> 3 * \<bar>m\<bar> / 2 ^ 53" and "\<bar>v - a\<bar> \<le> 1 / 200 + (\<bar>a\<bar> + 1) / 2 ^ 53"
  shows "\<bar>v - m\<bar> \<le> 1 / 200 + (\<bar>m\<bar> + 1) / 2 ^ 50"
proof -
  have chain: "z \<le> 1 / 200 + (u + 1) / 2 ^ 50"
    if "z \<le> y + x" and "w \<le> u + x" and "x \<le> 3 * u / 2 ^ 53"
      and "y \<le> 1 / 200 + (w + 1) / 2 ^ 53" and "0 \<le> u"
    for x y z u w :: rat
    using that unfolding p53 p50 add_divide_distrib by linarith
  have "\<bar>v - m\<bar> \<le> \<bar>v - a\<bar> + \<bar>a - m\<bar>" and "\<bar>a\<bar> \<le> \<bar>m\<bar> + \<bar>a - m\<bar>"
    by linarith+
  then show ?thesis
    using assms by (rule chain) simp
qed

lemma mean_zero:
  fixes m :: rat
  assumes "\<bar>0 - m\<bar> \<le> 3 * \<bar>m\<bar> / 2 ^ 53"
  shows "\<bar>0 - m\<bar> \<le> 1 / 200 + (\<bar>m\<bar> + 1) / 2 ^ 50"
proof -
  have chain: "z \<le> 1 / 200 + (u + 1) / 2 ^ 50" if "z \<le> 3 * u / 2 ^ 53" and "0 \<le> u"
    for z u :: rat
    using that unfolding p53 p50 add_divide_distrib by linarith
  from assms show ?thesis
    by (rule chain) simp
qed

lemma div_step:
  fixes S T n :: rat
  assumes "\<bar>T - S\<bar> \<le> \<bar>S\<bar> / 2 ^ 53" and "0 < n"
  shows "\<bar>T / n - S / n\<bar> \<le> \<bar>S / n\<bar> / 2 ^ 53"
proof -
  from assms(2) have nn: "0 \<le> n"
    by simp
  from assms(1) nn have "\<bar>T - S\<bar> / n \<le> \<bar>S\<bar> / 2 ^ 53 / n"
    by (rule divide_right_mono)
  moreover have "\<bar>T - S\<bar> / n = \<bar>T / n - S / n\<bar>"
    using assms(2) by (simp add: diff_divide_distrib [symmetric])
  moreover have "\<bar>S\<bar> / 2 ^ 53 / n = \<bar>S / n\<bar> / 2 ^ 53"
    using assms(2) by simp
  ultimately show ?thesis
    by linarith
qed

lemma sqlite_avg_near:
  assumes "vals \<noteq> []"
  shows "\<bar>sqlite_avg vals - of_int (sum_list vals) / of_int (int (length vals))\<bar>
           \<le> 3 * \<bar>of_int (sum_list vals) / of_int (int (length vals))\<bar> / 2 ^ 53"
proof -
  define S :: rat where "S = of_int (sum_list vals)"
  define n :: rat where "n = of_int (int (length vals))"
  from assms have n: "0 < n"
    by (simp add: n_def)
  have "\<bar>to_double S - S\<bar> \<le> \<bar>S\<bar> / 2 ^ 53"
    by (rule to_double_near)
  then have first: "\<bar>to_double S / n - S / n\<bar> \<le> \<bar>S / n\<bar> / 2 ^ 53"
    using n by (rule div_step)
  have second: "\<bar>to_double (to_double S / n) - to_double S / n\<bar> \<le> \<bar>to_double S / n\<bar> / 2 ^ 53"
    by (rule to_double_near)
  from two_roundings [OF first second] show ?thesis
    by (simp add: sqlite_avg_def S_def n_def)
qed

lemma float_round_2:
  "float_round a 2 = to_double (of_int (round_half_even (a * 100)) / 100)"
  by (simp add: float_round_def)

lemma float_round_near: "\<bar>float_round a 2 - a\<bar> \<le> 1 / 200 + (\<bar>a\<bar> + 1) / 2 ^ 53"
proof -
  define c :: rat where "c = of_int (round_half_even (a * 100)) / 100"
  have "\<bar>of_int (round_half_even (a * 100)) - a * 100\<bar> \<le> 1 / 2"
    by (rule round_half_even_near)
  then have hundredth: "\<bar>c - a\<bar> \<le> 1 / 200"
    by (simp add: c_def abs_le_iff field_simps)
  have "\<bar>to_double c - c\<bar> \<le> \<bar>c\<bar> / 2 ^ 53"
    by (rule to_double_near)
  with hundredth have "\<bar>to_double c - a\<bar> \<le> 1 / 200 + (\<bar>a\<bar> + 1) / 2 ^ 53"
    by (rule hundredth_then_double)
  then show ?thesis
    by (simp only: float_round_2 c_def)
qed

text \<open>
  The number the view hands on for a non-empty list of values: a double nearest to a
  number of hundredths, and near the exact mean.
\<close>

lemma rounded_mean_near:
  assumes "vals \<noteq> []"
  defines "v \<equiv> number_value (round_number double_ops (or_0 double_ops (Some (sqlite_avg vals))) 2)"
  shows "(\<exists>k::int. v = to_double (of_int k / 100))
     \<and> \<bar>v - of_int (sum_list vals) / of_int (int (length vals))\<bar>
         \<le> 1 / 200 + (\<bar>of_int (sum_list vals) / of_int (int (length vals))\<bar> + 1) / 2 ^ 50"
proof -
  define m :: rat where "m = of_int (sum_list vals) / of_int (int (length vals))"
  define a where "a = sqlite_avg vals"
  have avg: "\<bar>a - m\<bar> \<le> 3 * \<bar>m\<bar> / 2 ^ 53"
    unfolding a_def m_def using assms(1) by (rule sqlite_avg_near)
  show ?thesis
  proof (cases "a = 0")
    case True
    then have v: "v = 0"
      by (simp add: v_def a_def or_0_def double_ops_def)
    have "v = to_double (of_int 0 / 100)"
      by (simp add: v to_double_def)
    then have "\<exists>k::int. v = to_double (of_int k / 100)" ..
    moreover from avg have "\<bar>0 - m\<bar> \<le> 1 / 200 + (\<bar>m\<bar> + 1) / 2 ^ 50"
      unfolding True by (rule mean_zero)
    then have "\<bar>v - m\<bar> \<le> 1 / 200 + (\<bar>m\<bar> + 1) / 2 ^ 50"
      by (simp only: v)
    ultimately show ?thesis
      by (simp only: m_def)
  next
    case False
    then have v: "v = float_round a 2"
      by (simp add: v_def a_def or_0_def double_ops_def)
    have "v = to_double (of_int (round_half_even (a * 100)) / 100)"
      by (simp only: v float_round_2)
    then have "\<exists>k::int. v = to_double (of_int k / 100)" ..
    moreover have "\<bar>float_round a 2 - a\<bar> \<le> 1 / 200 + (\<bar>a\<bar> + 1) / 2 ^ 53"
      by (rule float_round_near)
    with avg have "\<bar>float_round a 2 - m\<bar> \<le> 1 / 200 + (\<bar>m\<bar> + 1) / 2 ^ 50"
      by (rule mean_then_round)
    then have "\<bar>v - m\<bar> \<le> 1 / 200 + (\<bar>m\<bar> + 1) / 2 ^ 50"
      by (simp only: v)
    ultimately show ?thesis
      by (simp only: m_def)
  qed
qed

lemma stats_avg_context:
  "\<exists>ctx. stats ops books = Inr ctx
     \<and> ctx_avg_pages ctx = round_number ops (stats_avg_pages ops books) 2
     \<and> ctx_avg_rating ctx = round_number ops (stats_avg_rating ops books) 2"
  by (simp add: stats_def stats_max_pages_eq stats_min_pages_eq stats_rating_data_eq)

lemma map_filter_Some: "List.map_filter (\<lambda>b. Some (f b)) xs = map f xs"
  by (induction xs) (simp_all add: List.map_filter_simps)

lemma map_filter_rating:
  "List.map_filter rating books = map (\<lambda>b. the (rating b)) (filter (\<lambda>b. rating b \<noteq> None) books)"
  by (simp add: List.map_filter_def comp_def)

lemma stats_avg_pages_eq:
  "stats_avg_pages ops books
     = or_0 ops (if books = [] then None else Some (op_avg ops (map pages books)))"
  by (simp add: stats_avg_pages_def fetch_all aggregate_Avg_def map_filter_Some)

lemma stats_avg_rating_eq:
  "stats_avg_rating ops books
     = or_0 ops (if filter (\<lambda>b. rating b \<noteq> None) books = [] then None
                 else Some (op_avg ops (map (\<lambda>b. the (rating b))
                                          (filter (\<lambda>b. rating b \<noteq> None) books))))"
  by (simp add: stats_avg_rating_def fetch_all aggregate_Avg_def map_filter_rating)

lemma op_avg_double: "op_avg double_ops = sqlite_avg"
  by (simp add: double_ops_def)

text \<open>
  Claim C6. For every table \<open>stats\<close> returns a context and no error. Whatever the
  floating-point operations are, the mean of the pages is the integer 0 with no records and
  the mean rating is the integer 0 when no record has a rating; otherwise each mean in the
  context is \<open>round(avg or 0, 2)\<close> for the database's mean \<open>avg\<close> of the pages of all
  records, or of the ratings of the rated records. In double precision each of these two
  numbers is the double nearest to a number of hundredths, and it differs from the exact
  mean \<open>m\<close> by at most \<open>1 / 200 + (|m| + 1) / 2 ^ 50\<close>: half a hundredth for the
  rounding to 2 decimals, and the rest for the three roundings to a double.
\<close>

theorem stats_means:
  "(\<exists>ctx. stats ops books = Inr ctx
      \<and> (books = [] \<longrightarrow> ctx_avg_pages ctx = PyInt 0)
      \<and> ((\<forall>b \<in> set books. rating b = None) \<longrightarrow> ctx_avg_rating ctx = PyInt 0)
      \<and> (books \<noteq> [] \<longrightarrow>
           ctx_avg_pages ctx
             = round_number ops (or_0 ops (Some (op_avg ops (map pages books)))) 2)
      \<and> ((\<exists>b \<in> set books. rating b \<noteq> None) \<longrightarrow>
           ctx_avg_rating ctx
             = round_number ops
                 (or_0 ops (Some (op_avg ops
                    (map (\<lambda>b. the (rating b)) (filter (\<lambda>b. rating b \<noteq> None) books))))) 2))
   \<and> (\<exists>ctx. stats double_ops books = Inr ctx
      \<and> (books \<noteq> [] \<longrightarrow>
           (\<exists>k::int. number_value (ctx_avg_pages ctx) = to_double (of_int k / 100))
           \<and> \<bar>number_value (ctx_avg_pages ctx)
                - of_int (sum_list (map pages books)) / of_int (int (length books))\<bar>
               \<le> 1 / 200
                  + (\<bar>of_int (sum_list (map pages books)) / of_int (int (length books))\<bar> + 1)
                    / 2 ^ 50)
      \<and> ((\<exists>b \<in> set books. rating b \<noteq> None) \<longrightarrow>
           (\<exists>k::int. number_value (ctx_avg_rating ctx) = to_double (of_int k / 100))
           \<and> \<bar>number_value (ctx_avg_rating ctx)
                - of_int (sum_list (map (\<lambda>b. the (rating b))
                                      (filter (\<lambda>b. rating b \<noteq> None) books)))
                  / of_int (int (length (filter (\<lambda>b. rating b \<noteq> None) books)))\<bar>
               \<le> 1 / 200
                  + (\<bar>of_int (sum_list (map (\<lambda>b. the (rating b))
                                        (filter (\<lambda>b. rating b \<noteq> None) books)))
                      / of_int (int (length (filter (\<lambda>b. rating b \<noteq> None) books)))\<bar> + 1)
                    / 2 ^ 50))"
proof -
  let ?rated = "filter (\<lambda>b. rating b \<noteq> None) books"
  let ?ratings = "map (\<lambda>b. the (rating b)) ?rated"
  have general: "\<exists>ctx. stats f books = Inr ctx
      \<and> (books = [] \<longrightarrow> ctx_avg_pages ctx = PyInt 0)
      \<and> ((\<forall>b \<in> set books. rating b = None) \<longrightarrow> ctx_avg_rating ctx = PyInt 0)
      \<and> (books \<noteq> [] \<longrightarrow>
           ctx_avg_pages ctx = round_number f (or_0 f (Some (op_avg f (map pages books)))) 2)
      \<and> ((\<exists>b \<in> set books. rating b \<noteq> None) \<longrightarrow>
           ctx_avg_rating ctx = round_number f (or_0 f (Some (op_avg f ?ratings))) 2)"
    for f :: "'b float_ops"
  proof -
    from stats_avg_context [of f books] obtain ctx where ctx: "stats f books = Inr ctx"
      and ap: "ctx_avg_pages ctx = round_number f (stats_avg_pages f books) 2"
      and ar: "ctx_avg_rating ctx = round_number f (stats_avg_rating f books) 2"
      by blast
    have no_books: "ctx_avg_pages ctx = PyInt 0" if "books = []"
      using that by (simp add: ap stats_avg_pages_eq or_0_def)
    have no_ratings: "ctx_avg_rating ctx = PyInt 0" if "\<forall>b \<in> set books. rating b = None"
    proof -
      from that have "?rated = []"
        by (simp add: filter_empty_conv)
      then show ?thesis
        by (simp add: ar stats_avg_rating_eq or_0_def)
    qed
    have pages_mean: "ctx_avg_pages ctx
        = round_number f (or_0 f (Some (op_avg f (map pages books)))) 2" if "books \<noteq> []"
      using that by (simp add: ap stats_avg_pages_eq)
    have rating_mean: "ctx_avg_rating ctx
        = round_number f (or_0 f (Some (op_avg f ?ratings))) 2"
      if "\<exists>b \<in> set books. rating b \<noteq> None"
    proof -
      from that have "?rated \<noteq> []"
        by (simp add: filter_empty_conv)
      then show ?thesis
        by (simp add: ar stats_avg_rating_eq)
    qed
    from ctx no_books no_ratings pages_mean rating_mean show ?thesis
      by (intro exI [of _ ctx] conjI impI) (simp_all only: simp_thms)
  qed
  from general [of double_ops] obtain ctx where ctx: "stats double_ops books = Inr ctx"
    and pages_mean: "books \<noteq> [] \<Longrightarrow> ctx_avg_pages ctx
        = round_number double_ops (or_0 double_ops (Some (sqlite_avg (map pages books)))) 2"
    and rating_mean: "\<exists>b \<in> set books. rating b \<noteq> None \<Longrightarrow> ctx_avg_rating ctx
        = round_number double_ops (or_0 double_ops (Some (sqlite_avg ?ratings))) 2"
    unfolding op_avg_double by blast
  have pages_near:
    "(\<exists>k::int. number_value (ctx_avg_pages ctx) = to_double (of_int k / 100))
     \<and> \<bar>number_value (ctx_avg_pages ctx)
          - of_int (sum_list (map pages books)) / of_int (int (length books))\<bar>
         \<le> 1 / 200
            + (\<bar>of_int (sum_list (map pages books)) / of_int (int (length books))\<bar> + 1) / 2 ^ 50"
    if some: "books \<noteq> []"
  proof -
    from some have "map pages books \<noteq> []"
      by simp
    from rounded_mean_near [OF this] show ?thesis
      by (simp only: pages_mean [OF some] length_map)
  qed
  have rating_near:
    "(\<exists>k::int. number_value (ctx_avg_rating ctx) = to_double (of_int k / 100))
     \<and> \<bar>number_value (ctx_avg_rating ctx)
          - of_int (sum_list ?ratings) / of_int (int (length ?rated))\<bar>
         \<le> 1 / 200 + (\<bar>of_int (sum_list ?ratings) / of_int (int (length ?rated))\<bar> + 1) / 2 ^ 50"
    if rated: "\<exists>b \<in> set books. rating b \<noteq> None"
  proof -
    from rated have "?ratings \<noteq> []"
      by (simp add: filter_empty_conv)
    from rounded_mean_near [OF this] show ?thesis
      by (simp only: rating_mean [OF rated] length_map)
  qed
  from ctx pages_near rating_near
  have double: "\<exists>ctx. stats double_ops books = Inr ctx
      \<and> (books \<noteq> [] \<longrightarrow>
           (\<exists>k::int. number_value (ctx_avg_pages ctx) = to_double (of_int k / 100))
           \<and> \<bar>number_value (ctx_avg_pages ctx)
                - of_int (sum_list (map pages books)) / of_int (int (length books))\<bar>
               \<le> 1 / 200
                  + (\<bar>of_int (sum_list (map pages books)) / of_int (int (length books))\<bar> + 1)
                    / 2 ^ 50)
      \<and> ((\<exists>b \<in> set books. rating b \<noteq> None) \<longrightarrow>
           (\<exists>k::int. number_value (ctx_avg_rating ctx) = to_double (of_int k / 100))
           \<and> \<bar>number_value (ctx_avg_rating ctx)
                - of_int (sum_list ?ratings) / of_int (int (length ?rated))\<bar>
               \<le> 1 / 200
                  + (\<bar>of_int (sum_list ?ratings) / of_int (int (length ?rated))\<bar> + 1) / 2 ^ 50)"
    by (intro exI [of _ ctx] conjI impI) (simp_all only: simp_thms)
  from general [of ops] double show ?thesis
    by (rule conjI)
qed

text \<open>
  Claim C6 as the specification words it has the mean of the pages, rounded to 2 decimals.
  For one record of \<open>2 ^ 53 + 1\<close> pages the mean is \<open>2 ^ 53 + 1\<close>, which no double
  is, and the view hands on \<open>2 ^ 53\<close>.
\<close>

theorem stats_mean_pages_counterexample:
  "map_sum id ctx_avg_pages
     (stats double_ops
       [\<lparr>pk = 1, title = ''A'', pages = 9007199254740993, rating = None, status = ''FI'',
          published_date = Date 2020 1 1, read_date = None, cover_image = None,
          authors = []\<rparr>])
     = Inr (PyFloat 9007199254740992)
   \<and> of_int (sum_list (map pages
       [\<lparr>pk = 1, title = ''A'', pages = 9007199254740993, rating = None, status = ''FI'',
          published_date = Date 2020 1 1, read_date = None, cover_image = None,
          authors = []\<rparr>]))
       / of_int (int (length
       [\<lparr>pk = 1, title = ''A'', pages = 9007199254740993, rating = None, status = ''FI'',
          published_date = Date 2020 1 1, read_date = None, cover_image = None,
          authors = []\<rparr>]))
     = (9007199254740993 :: rat)"
proof -
  have "map_sum id ctx_avg_pages
     (stats double_ops
       [\<lparr>pk = 1, title = ''A'', pages = 9007199254740993, rating = None, status = ''FI'',
          published_date = Date 2020 1 1, read_date = None, cover_image = None,
          authors = []\<rparr>])
     = Inr (PyFloat 9007199254740992)"
    by code_simp
  then show ?thesis
    by simp
qed

text \<open>
  The theorem on three records with 1, 2 and 2 pages, two of them rated 4 and 3: the means
  are \<open>5 / 3\<close> and \<open>7 / 2\<close>, the view hands on the doubles nearest to 1.67 and to 3.5.
  On a single unrated record the mean rating is the integer 0, and so are both means on the
  empty table.
\<close>

theorem stats_means_witness:
  "[\<lparr>pk = 1, title = ''A'', pages = 1, rating = Some 4, status = ''FI'',
      published_date = Date 2020 1 1, read_date = None, cover_image = None, authors = []\<rparr>,
    \<lparr>pk = 2, title = ''B'', pages = 2, rating = None, status = ''PE'',
      published_date = Date 2020 1 1, read_date = None, cover_image = None, authors = []\<rparr>,
    \<lparr>pk = 3, title = ''C'', pages = 2, rating = Some 3, status = ''FI'',
      published_date = Date 2020 1 1, read_date = None, cover_image = None, authors = []\<rparr>] \<noteq> []
   \<and> (\<exists>ctx. stats double_ops
         [\<lparr>pk = 1, title = ''A'', pages = 1, rating = Some 4, status = ''FI'',
            published_date = Date 2020 1 1, read_date = None, cover_image = None, authors = []\<rparr>,
          \<lparr>pk = 2, title = ''B'', pages = 2, rating = None, status = ''PE'',
            published_date = Date 2020 1 1, read_date = None, cover_image = None, authors = []\<rparr>,
          \<lparr>pk = 3, title = ''C'', pages = 2, rating = Some 3, status = ''FI'',
            published_date = Date 2020 1 1, read_date = None, cover_image = None, authors = []\<rparr>]
         = Inr ctx
        \<and> ctx_avg_pages ctx = PyFloat (to_double (167 / 100))
        \<and> ctx_avg_rating ctx = PyFloat (7 / 2)
        \<and> \<bar>number_value (ctx_avg_pages ctx) - 5 / 3\<bar> \<le> 1 / 200 + (5 / 3 + 1) / 2 ^ 50
        \<and> \<bar>number_value (ctx_avg_rating ctx) - 7 / 2\<bar> \<le> 1 / 200 + (7 / 2 + 1) / 2 ^ 50)
   \<and> rating \<lparr>pk = 2, title = ''B'', pages = 2, rating = None, status = ''PE'',
            published_date = Date 2020 1 1, read_date = None, cover_image = None,
            authors = []\<rparr> = None
   \<and> (\<exists>ctx. stats double_ops [\<lparr>pk = 2, title = ''B'', pages = 2, rating = None, status = ''PE'',
            published_date = Date 2020 1 1, read_date = None, cover_image = None,
            authors = []\<rparr>] = Inr ctx
        \<and> ctx_avg_rating ctx = PyInt 0)
   \<and> (\<exists>ctx. stats double_ops [] = Inr ctx
        \<and> ctx_avg_pages ctx = PyInt 0 \<and> ctx_avg_rating ctx = PyInt 0)"
proof -
  let ?S = "[\<lparr>pk = 1, title = ''A'', pages = 1, rating = Some 4, status = ''FI'',
      published_date = Date 2020 1 1, read_date = None, cover_image = None, authors = []\<rparr>,
    \<lparr>pk = 2, title = ''B'', pages = 2, rating = None, status = ''PE'',
      published_date = Date 2020 1 1, read_date = None, cover_image = None, authors = []\<rparr>,
    \<lparr>pk = 3, title = ''C'', pages = 2, rating = Some 3, status = ''FI'',
      published_date = Date 2020 1 1, read_date = None, cover_image = None, authors = []\<rparr>]"
  let ?U = "[\<lparr>pk = 2, title = ''B'', pages = 2, rating = None, status = ''PE'',
            published_date = Date 2020 1 1, read_date = None, cover_image = None,
            authors = []\<rparr>]"
  have some: "?S \<noteq> []" and rated: "\<exists>b \<in> set ?S. rating b \<noteq> None"
    by simp_all
  have unrated: "\<forall>b \<in> set ?U. rating b = None"
    by simp
  have pages_mean: "of_int (sum_list (map pages ?S)) / of_int (int (length ?S)) = (5 / 3 :: rat)"
    by simp
  have rating_mean:
    "of_int (sum_list (map (\<lambda>b. the (rating b)) (filter (\<lambda>b. rating b \<noteq> None) ?S)))
       / of_int (int (length (filter (\<lambda>b. rating b \<noteq> None) ?S))) = (7 / 2 :: rat)"
    by simp
  have run_pages: "map_sum id ctx_avg_pages (stats double_ops ?S)
      = Inr (PyFloat (to_double (167 / 100)))"
    by code_simp
  have run_rating: "map_sum id ctx_avg_rating (stats double_ops ?S) = Inr (PyFloat (7 / 2))"
    by code_simp
  from stats_means [of double_ops ?S, THEN conjunct2] some rated obtain c1
    where c1: "stats double_ops ?S = Inr c1"
    and "\<bar>number_value (ctx_avg_pages c1)
           - of_int (sum_list (map pages ?S)) / of_int (int (length ?S))\<bar>
          \<le> 1 / 200
             + (\<bar>of_int (sum_list (map pages ?S)) / of_int (int (length ?S))\<bar> + 1) / 2 ^ 50"
    and "\<bar>number_value (ctx_avg_rating c1)
           - of_int (sum_list (map (\<lambda>b. the (rating b)) (filter (\<lambda>b. rating b \<noteq> None) ?S)))
             / of_int (int (length (filter (\<lambda>b. rating b \<noteq> None) ?S)))\<bar>
          \<le> 1 / 200
             + (\<bar>of_int (sum_list (map (\<lambda>b. the (rating b))
                                    (filter (\<lambda>b. rating b \<noteq> None) ?S)))
                 / of_int (int (length (filter (\<lambda>b. rating b \<noteq> None) ?S)))\<bar> + 1) / 2 ^ 50"
    by blast
  then have near: "\<bar>number_value (ctx_avg_pages c1) - 5 / 3\<bar> \<le> 1 / 200 + (5 / 3 + 1) / 2 ^ 50"
      "\<bar>number_value (ctx_avg_rating c1) - 7 / 2\<bar> \<le> 1 / 200 + (7 / 2 + 1) / 2 ^ 50"
    unfolding pages_mean rating_mean by simp_all
  from run_pages run_rating have vals: "ctx_avg_pages c1 = PyFloat (to_double (167 / 100))"
      "ctx_avg_rating c1 = PyFloat (7 / 2)"
    unfolding c1 by simp_all
  from c1 vals near have full: "\<exists>ctx. stats double_ops ?S = Inr ctx
        \<and> ctx_avg_pages ctx = PyFloat (to_double (167 / 100))
        \<and> ctx_avg_rating ctx = PyFloat (7 / 2)
        \<and> \<bar>number_value (ctx_avg_pages ctx) - 5 / 3\<bar> \<le> 1 / 200 + (5 / 3 + 1) / 2 ^ 50
        \<and> \<bar>number_value (ctx_avg_rating ctx) - 7 / 2\<bar> \<le> 1 / 200 + (7 / 2 + 1) / 2 ^ 50"
    by (intro exI [of _ c1] conjI)
  from stats_means [of double_ops ?U, THEN conjunct1] unrated
  have no_rating: "\<exists>ctx. stats double_ops ?U = Inr ctx \<and> ctx_avg_rating ctx = PyInt 0"
    by blast
  from stats_means [of double_ops "[]", THEN conjunct1]
  have none: "\<exists>ctx. stats double_ops [] = Inr ctx
      \<and> ctx_avg_pages ctx = PyInt 0 \<and> ctx_avg_rating ctx = PyInt 0"
    by simp
  have unrated_one: "rating \<lparr>pk = 2, title = ''B'', pages = 2, rating = None, status = ''PE'',
            published_date = Date 2020 1 1, read_date = None, cover_image = None,
            authors = []\<rparr> = None"
    by simp
  from some full unrated_one no_rating none show ?thesis by (intro conjI)
qed

section \<open>The form: what validation reports\<close>

lemma errors_add_error:
  "errors (add_error name msgs f) k
     = (if k = name then Some ((case errors f name of None \<Rightarrow> [] | Some old \<Rightarrow> old) @ msgs)
        else errors f k)"
  by (simp add: add_error_def)

lemma cleaned_add_error: "cleaned_data (add_error name msgs f) = cd_del name (cleaned_data f)"
  by (simp add: add_error_def)

lemma errors_clean_field:
  "errors (clean_field name r put f) k
     = (case r of
          Inl codes \<Rightarrow>
            if k = name
            then Some ((case errors f name of None \<Rightarrow> [] | Some old \<Rightarrow> old)
                       @ map (message_for name) codes)
            else errors f k
        | Inr v \<Rightarrow> errors f k)"
  by (simp add: clean_field_def errors_add_error split: sum.split)

lemma cleaned_clean_field:
  "cleaned_data (clean_field name r put f)
     = (case r of Inl codes \<Rightarrow> cd_del name (cleaned_data f) | Inr v \<Rightarrow> put v (cleaned_data f))"
  by (simp add: clean_field_def cleaned_add_error split: sum.split)

lemma clean_field_keeps_pages:
  "name \<noteq> ''pages'' \<Longrightarrow> (\<And>v cd. cd_pages (put v cd) = cd_pages cd) \<Longrightarrow>
     cd_pages (cleaned_data (clean_field name r put f)) = cd_pages (cleaned_data f)"
  by (simp add: cleaned_clean_field cd_del_def split: sum.split)

lemma clean_field_keeps_rating:
  "name \<noteq> ''rating'' \<Longrightarrow> (\<And>v cd. cd_rating (put v cd) = cd_rating cd) \<Longrightarrow>
     cd_rating (cleaned_data (clean_field name r put f)) = cd_rating (cleaned_data f)"
  by (simp add: cleaned_clean_field cd_del_def split: sum.split)

lemma clean_field_keeps_published_date:
  "name \<noteq> ''published_date'' \<Longrightarrow>
     (\<And>v cd. cd_published_date (put v cd) = cd_published_date cd) \<Longrightarrow>
     cd_published_date (cleaned_data (clean_field name r put f))
       = cd_published_date (cleaned_data f)"
  by (simp add: cleaned_clean_field cd_del_def split: sum.split)

lemma clean_field_keeps_read_date:
  "name \<noteq> ''read_date'' \<Longrightarrow> (\<And>v cd. cd_read_date (put v cd) = cd_read_date cd) \<Longrightarrow>
     cd_read_date (cleaned_data (clean_field name r put f)) = cd_read_date (cleaned_data f)"
  by (simp add: cleaned_clean_field cd_del_def split: sum.split)

lemmas clean_field_keeps =
  clean_field_keeps_pages clean_field_keeps_rating clean_field_keeps_published_date
  clean_field_keeps_read_date

lemma clean_field_puts:
  "cd_pages (cleaned_data (clean_field ''pages'' r (\<lambda>v cd. cd\<lparr>cd_pages := Some v\<rparr>) f))
     = (case r of Inl codes \<Rightarrow> None | Inr v \<Rightarrow> Some v)"
  "cd_rating (cleaned_data (clean_field ''rating'' r' (\<lambda>v cd. cd\<lparr>cd_rating := Some v\<rparr>) f))
     = (case r' of Inl codes \<Rightarrow> None | Inr v \<Rightarrow> Some v)"
  "cd_published_date (cleaned_data
       (clean_field ''published_date'' r'' (\<lambda>v cd. cd\<lparr>cd_published_date := Some v\<rparr>) f))
     = (case r'' of Inl codes \<Rightarrow> None | Inr v \<Rightarrow> Some v)"
  "cd_read_date (cleaned_data
       (clean_field ''read_date'' r3 (\<lambda>v cd. cd\<lparr>cd_read_date := Some v\<rparr>) f))
     = (case r3 of Inl codes \<Rightarrow> None | Inr v \<Rightarrow> Some v)"
  by (simp_all add: cleaned_clean_field cd_del_def split: sum.split)

lemma cleaned_clean_fields:
  "cd_pages (cleaned_data (clean_fields d \<lparr>errors = Map.empty, cleaned_data = empty_cleaned\<rparr>))
     = (case in_pages d of Parsed n \<Rightarrow> Some n | _ \<Rightarrow> None)"
  "cd_rating (cleaned_data (clean_fields d \<lparr>errors = Map.empty, cleaned_data = empty_cleaned\<rparr>))
     = (case in_rating d of Blank \<Rightarrow> Some None | Malformed \<Rightarrow> None | Parsed r \<Rightarrow> Some (Some r))"
  "cd_published_date (cleaned_data (clean_fields d \<lparr>errors = Map.empty, cleaned_data = empty_cleaned\<rparr>))
     = (case in_published_date d of Parsed p \<Rightarrow> Some p | _ \<Rightarrow> None)"
  "cd_read_date (cleaned_data (clean_fields d \<lparr>errors = Map.empty, cleaned_data = empty_cleaned\<rparr>))
     = (case in_read_date d of Blank \<Rightarrow> Some None | Malformed \<Rightarrow> None | Parsed r \<Rightarrow> Some (Some r))"
  by (simp_all add: clean_fields_def Let_def clean_field_keeps clean_field_puts
        split: submitted.split)


lemma errors_clean_field_other:
  "k \<noteq> name \<Longrightarrow> errors (clean_field name r put f) k = errors f k"
  by (simp add: errors_clean_field split: sum.split)

lemma errors_clean_field_same:
  "errors (clean_field name r put f) name
     = (case r of
          Inl codes \<Rightarrow> Some ((case errors f name of None \<Rightarrow> [] | Some old \<Rightarrow> old)
                              @ map (message_for name) codes)
        | Inr v \<Rightarrow> errors f name)"
  by (simp add: errors_clean_field split: sum.split)

lemma message_for_simps:
  "message_for ''title'' ''required'' = Text ''The title is mandatory''"
  "message_for ''title'' ''max_length'' = Text ''The title must be less than 50 characters long''"
  "name \<noteq> ''title'' \<Longrightarrow> message_for name code = Default code"
  by (simp_all add: message_for_def error_messages_def)

lemma errors_clean_fields:
  "errors (clean_fields d \<lparr>errors = Map.empty, cleaned_data = empty_cleaned\<rparr>) ''title''
     = (if in_title d = [] then Some [Text ''The title is mandatory'']
        else if 50 < length (in_title d)
          then Some [Text ''The title must be less than 50 characters long'']
        else None)"
  "errors (clean_fields d \<lparr>errors = Map.empty, cleaned_data = empty_cleaned\<rparr>) ''pages''
     = (case in_pages d of Blank \<Rightarrow> Some [Default ''required'']
        | Malformed \<Rightarrow> Some [Default ''invalid''] | Parsed n \<Rightarrow> None)"
  "errors (clean_fields d \<lparr>errors = Map.empty, cleaned_data = empty_cleaned\<rparr>) ''rating''
     = (case in_rating d of Blank \<Rightarrow> None
        | Malformed \<Rightarrow> Some [Default ''invalid''] | Parsed n \<Rightarrow> None)"
  "errors (clean_fields d \<lparr>errors = Map.empty, cleaned_data = empty_cleaned\<rparr>) ''status''
     = (case in_status d of Blank \<Rightarrow> Some [Default ''required'']
        | Malformed \<Rightarrow> Some [Default ''invalid_choice''] | Parsed n \<Rightarrow> None)"
  "errors (clean_fields d \<lparr>errors = Map.empty, cleaned_data = empty_cleaned\<rparr>) ''published_date''
     = (case in_published_date d of Blank \<Rightarrow> Some [Default ''required'']
        | Malformed \<Rightarrow> Some [Default ''invalid''] | Parsed n \<Rightarrow> None)"
  "errors (clean_fields d \<lparr>errors = Map.empty, cleaned_data = empty_cleaned\<rparr>) ''read_date''
     = (case in_read_date d of Blank \<Rightarrow> None
        | Malformed \<Rightarrow> Some [Default ''invalid''] | Parsed n \<Rightarrow> None)"
  "errors (clean_fields d \<lparr>errors = Map.empty, cleaned_data = empty_cleaned\<rparr>) ''cover_image''
     = (case in_cover_image d of Blank \<Rightarrow> None
        | Malformed \<Rightarrow> Some [Default ''invalid''] | Parsed n \<Rightarrow> None)"
  "errors (clean_fields d \<lparr>errors = Map.empty, cleaned_data = empty_cleaned\<rparr>) ''authors''
     = (case in_authors d of Blank \<Rightarrow> None
        | Malformed \<Rightarrow> Some [Default ''invalid_choice''] | Parsed n \<Rightarrow> None)"
  by (simp_all add: clean_fields_def Let_def errors_clean_field_other errors_clean_field_same
        clean_title_def title_max_length_def message_for_simps split: submitted.split)

lemma errors_clean_fields_other:
  "k \<notin> set form_fields \<Longrightarrow>
     errors (clean_fields d \<lparr>errors = Map.empty, cleaned_data = empty_cleaned\<rparr>) k = None"
  by (simp add: form_fields_def clean_fields_def Let_def errors_clean_field_other)


lemma errors_BookForm_clean_other:
  "k \<noteq> ''read_date'' \<Longrightarrow> errors (BookForm_clean f) k = errors f k"
  by (simp add: BookForm_clean_def Let_def errors_add_error)

lemma errors_BookForm_clean_read_date:
  "errors (BookForm_clean f) ''read_date''
     = (if cleaned_get (cd_read_date (cleaned_data f)) \<noteq> None
           \<and> cd_published_date (cleaned_data f) \<noteq> None
           \<and> date_lt (the (cleaned_get (cd_read_date (cleaned_data f))))
                (the (cd_published_date (cleaned_data f)))
        then Some ((case errors f ''read_date'' of None \<Rightarrow> [] | Some old \<Rightarrow> old)
                   @ [Text ''The read date must be after the published date''])
        else errors f ''read_date'')"
  by (simp add: BookForm_clean_def Let_def errors_add_error)

lemma cleaned_BookForm_clean:
  "cd_pages (cleaned_data (BookForm_clean f)) = cd_pages (cleaned_data f)"
  "cd_rating (cleaned_data (BookForm_clean f)) = cd_rating (cleaned_data f)"
  "cd_published_date (cleaned_data (BookForm_clean f)) = cd_published_date (cleaned_data f)"
  by (simp_all add: BookForm_clean_def Let_def cleaned_add_error cd_del_def)

text \<open>
  Once the form's \<open>clean\<close> has run, the record's own cross-field rule finds nothing more
  on a new instance: either the dates were in order, or \<open>read_date\<close> has left
  \<open>cleaned_data\<close>.
\<close>

lemma Book_clean_after_BookForm_clean:
  "Book_clean (cleaned_get (cd_read_date (cleaned_data (BookForm_clean f))))
     (cd_published_date (cleaned_data (BookForm_clean f))) = []"
  by (simp add: BookForm_clean_def Book_clean_def Let_def cleaned_add_error cd_del_def
        cleaned_get_def)

lemma errors_post_clean:
  "Book_clean (cleaned_get (cd_read_date (cleaned_data f))) (cd_published_date (cleaned_data f)) = []
   \<Longrightarrow> errors (post_clean f) k
     = (if k = ''pages'' \<and> (\<exists>n. cd_pages (cleaned_data f) = Some n \<and> n < 1)
        then Some ((case errors f ''pages'' of None \<Rightarrow> [] | Some old \<Rightarrow> old)
                   @ [Default ''min_value''])
        else if k = ''rating'' \<and> (\<exists>r. cd_rating (cleaned_data f) = Some (Some r) \<and> r < 1)
        then Some ((case errors f ''rating'' of None \<Rightarrow> [] | Some old \<Rightarrow> old)
                   @ [Default ''min_value''])
        else if k = ''rating'' \<and> (\<exists>r. cd_rating (cleaned_data f) = Some (Some r) \<and> 5 < r)
        then Some ((case errors f ''rating'' of None \<Rightarrow> [] | Some old \<Rightarrow> old)
                   @ [Default ''max_value''])
        else errors f k)"
  by (auto simp: post_clean_def Let_def Book_clean_fields_def errors_add_error message_for_simps
        split: option.splits)


lemma errors_full_clean_eq:
  "errors (full_clean d) k
     = (let f = BookForm_clean (clean_fields d \<lparr>errors = Map.empty, cleaned_data = empty_cleaned\<rparr>)
        in if k = ''pages'' \<and> (\<exists>n. cd_pages (cleaned_data f) = Some n \<and> n < 1)
        then Some ((case errors f ''pages'' of None \<Rightarrow> [] | Some old \<Rightarrow> old)
                   @ [Default ''min_value''])
        else if k = ''rating'' \<and> (\<exists>r. cd_rating (cleaned_data f) = Some (Some r) \<and> r < 1)
        then Some ((case errors f ''rating'' of None \<Rightarrow> [] | Some old \<Rightarrow> old)
                   @ [Default ''min_value''])
        else if k = ''rating'' \<and> (\<exists>r. cd_rating (cleaned_data f) = Some (Some r) \<and> 5 < r)
        then Some ((case errors f ''rating'' of None \<Rightarrow> [] | Some old \<Rightarrow> old)
                   @ [Default ''max_value''])
        else errors f k)"
  unfolding full_clean_def Let_def
  by (rule errors_post_clean) (rule Book_clean_after_BookForm_clean)

lemma errors_full_clean:
  "errors (full_clean d) ''title''
     = (if in_title d = [] then Some [Text ''The title is mandatory'']
        else if 50 < length (in_title d)
          then Some [Text ''The title must be less than 50 characters long'']
        else None)"
  "errors (full_clean d) ''pages''
     = (case in_pages d of Blank \<Rightarrow> Some [Default ''required'']
        | Malformed \<Rightarrow> Some [Default ''invalid'']
        | Parsed n \<Rightarrow> if n < 1 then Some [Default ''min_value''] else None)"
  "errors (full_clean d) ''rating''
     = (case in_rating d of Blank \<Rightarrow> None
        | Malformed \<Rightarrow> Some [Default ''invalid'']
        | Parsed r \<Rightarrow> if r < 1 then Some [Default ''min_value'']
                      else if 5 < r then Some [Default ''max_value''] else None)"
  "errors (full_clean d) ''status''
     = (case in_status d of Blank \<Rightarrow> Some [Default ''required'']
        | Malformed \<Rightarrow> Some [Default ''invalid_choice''] | Parsed n \<Rightarrow> None)"
  "errors (full_clean d) ''published_date''
     = (case in_published_date d of Blank \<Rightarrow> Some [Default ''required'']
        | Malformed \<Rightarrow> Some [Default ''invalid''] | Parsed n \<Rightarrow> None)"
  "errors (full_clean d) ''read_date''
     = (case in_read_date d of Blank \<Rightarrow> None
        | Malformed \<Rightarrow> Some [Default ''invalid'']
        | Parsed r \<Rightarrow>
            (case in_published_date d of
               Parsed p \<Rightarrow>
                 if date_lt r p
                 then Some [Text ''The read date must be after the published date'']
                 else None
             | _ \<Rightarrow> None))"
  "errors (full_clean d) ''cover_image''
     = (case in_cover_image d of Blank \<Rightarrow> None
        | Malformed \<Rightarrow> Some [Default ''invalid''] | Parsed n \<Rightarrow> None)"
  "errors (full_clean d) ''authors''
     = (case in_authors d of Blank \<Rightarrow> None
        | Malformed \<Rightarrow> Some [Default ''invalid_choice''] | Parsed n \<Rightarrow> None)"
  by (simp_all add: errors_full_clean_eq Let_def errors_BookForm_clean_other
        errors_BookForm_clean_read_date cleaned_BookForm_clean errors_clean_fields
        cleaned_clean_fields cleaned_get_def split: submitted.split)

lemma errors_full_clean_other: "k \<notin> set form_fields \<Longrightarrow> errors (full_clean d) k = None"
proof -
  assume k: "k \<notin> set form_fields"
  then have "k \<noteq> ''pages''" "k \<noteq> ''rating''" "k \<noteq> ''read_date''"
    by (auto simp: form_fields_def)
  with k show ?thesis
    by (simp add: errors_full_clean_eq Let_def errors_BookForm_clean_other
          errors_clean_fields_other)
qed


lemma invalid_if_error: "name \<in> set form_fields \<Longrightarrow> errors (full_clean d) name \<noteq> None \<Longrightarrow> \<not> is_valid d"
  by (auto simp: is_valid_def list_all_iff)

text \<open>
  Claim C5. Validation of the title: an empty title is invalid, and the form's only message
  for \<open>title\<close> is \<open>The title is mandatory\<close>; a title of 51 or more characters is
  invalid, and the only message is \<open>The title must be less than 50 characters long\<close>;
  a title of exactly 50 characters has no error on \<open>title\<close>.
\<close>

theorem title_messages:
  "(in_title d = [] \<longrightarrow>
      errors (full_clean d) ''title'' = Some [Text ''The title is mandatory''] \<and> \<not> is_valid d)
   \<and> (51 \<le> length (in_title d) \<longrightarrow>
      errors (full_clean d) ''title''
        = Some [Text ''The title must be less than 50 characters long''] \<and> \<not> is_valid d)
   \<and> (length (in_title d) = 50 \<longrightarrow> errors (full_clean d) ''title'' = None)"
proof -
  have field: "''title'' \<in> set form_fields"
    by (simp add: form_fields_def)
  have "errors (full_clean d) ''title'' = Some [Text ''The title is mandatory''] \<and> \<not> is_valid d"
    if "in_title d = []"
  proof -
    from that have e: "errors (full_clean d) ''title'' = Some [Text ''The title is mandatory'']"
      by (simp add: errors_full_clean(1))
    then have "errors (full_clean d) ''title'' \<noteq> None" by simp
    with field have "\<not> is_valid d" by (rule invalid_if_error)
    with e show ?thesis by (rule conjI)
  qed
  moreover have "errors (full_clean d) ''title''
        = Some [Text ''The title must be less than 50 characters long''] \<and> \<not> is_valid d"
    if "51 \<le> length (in_title d)"
  proof -
    from that have "in_title d \<noteq> []" and "50 < length (in_title d)" by auto
    then have e: "errors (full_clean d) ''title''
        = Some [Text ''The title must be less than 50 characters long'']"
      by (simp add: errors_full_clean(1))
    then have "errors (full_clean d) ''title'' \<noteq> None" by simp
    with field have "\<not> is_valid d" by (rule invalid_if_error)
    with e show ?thesis by (rule conjI)
  qed
  moreover have "errors (full_clean d) ''title'' = None" if "length (in_title d) = 50"
  proof -
    from that have "in_title d \<noteq> []" and "\<not> 50 < length (in_title d)" by auto
    then show ?thesis by (simp add: errors_full_clean(1))
  qed
  ultimately show ?thesis by blast
qed

text \<open>The theorem at an empty title, at 51 letters and at 50 letters.\<close>

theorem title_messages_witness:
  "in_title \<lparr>in_title = [], in_pages = Parsed 200, in_rating = Blank, in_status = Parsed ''FI'',
       in_published_date = Parsed (Date 2020 1 1), in_read_date = Blank,
       in_cover_image = Blank, in_authors = Blank\<rparr> = []
   \<and> errors (full_clean \<lparr>in_title = [], in_pages = Parsed 200, in_rating = Blank,
       in_status = Parsed ''FI'', in_published_date = Parsed (Date 2020 1 1),
       in_read_date = Blank, in_cover_image = Blank, in_authors = Blank\<rparr>) ''title''
      = Some [Text ''The title is mandatory'']
   \<and> 51 \<le> length (in_title \<lparr>in_title = replicate 51 CHR ''A'', in_pages = Parsed 200,
       in_rating = Blank, in_status = Parsed ''FI'', in_published_date = Parsed (Date 2020 1 1),
       in_read_date = Blank, in_cover_image = Blank, in_authors = Blank\<rparr>)
   \<and> errors (full_clean \<lparr>in_title = replicate 51 CHR ''A'', in_pages = Parsed 200,
       in_rating = Blank, in_status = Parsed ''FI'', in_published_date = Parsed (Date 2020 1 1),
       in_read_date = Blank, in_cover_image = Blank, in_authors = Blank\<rparr>) ''title''
      = Some [Text ''The title must be less than 50 characters long'']
   \<and> length (in_title \<lparr>in_title = replicate 50 CHR ''A'', in_pages = Parsed 200,
       in_rating = Blank, in_status = Parsed ''FI'', in_published_date = Parsed (Date 2020 1 1),
       in_read_date = Blank, in_cover_image = Blank, in_authors = Blank\<rparr>) = 50
   \<and> errors (full_clean \<lparr>in_title = replicate 50 CHR ''A'', in_pages = Parsed 200,
       in_rating = Blank, in_status = Parsed ''FI'', in_published_date = Parsed (Date 2020 1 1),
       in_read_date = Blank, in_cover_image = Blank, in_authors = Blank\<rparr>) ''title'' = None"
  using
    title_messages [of "\<lparr>in_title = [], in_pages = Parsed 200, in_rating = Blank,
       in_status = Parsed ''FI'', in_published_date = Parsed (Date 2020 1 1),
       in_read_date = Blank, in_cover_image = Blank, in_authors = Blank\<rparr>"]
    title_messages [of "\<lparr>in_title = replicate 51 CHR ''A'', in_pages = Parsed 200,
       in_rating = Blank, in_status = Parsed ''FI'', in_published_date = Parsed (Date 2020 1 1),
       in_read_date = Blank, in_cover_image = Blank, in_authors = Blank\<rparr>"]
    title_messages [of "\<lparr>in_title = replicate 50 CHR ''A'', in_pages = Parsed 200,
       in_rating = Blank, in_status = Parsed ''FI'', in_published_date = Parsed (Date 2020 1 1),
       in_read_date = Blank, in_cover_image = Blank, in_authors = Blank\<rparr>"]
  by (simp only: form_data.simps length_replicate list.size simp_thms order_refl)



text \<open>
  The form after its fields and its own \<open>clean\<close>, before the record is validated: what
  \<open>read_date\<close> carries then.
\<close>

lemma errors_form_clean_read_date:
  "errors (BookForm_clean (clean_fields d \<lparr>errors = Map.empty, cleaned_data = empty_cleaned\<rparr>))
     ''read_date''
     = (case in_read_date d of Blank \<Rightarrow> None
        | Malformed \<Rightarrow> Some [Default ''invalid'']
        | Parsed r \<Rightarrow>
            (case in_published_date d of
               Parsed p \<Rightarrow>
                 if date_lt r p
                 then Some [Text ''The read date must be after the published date'']
                 else None
             | _ \<Rightarrow> None))"
  by (simp add: errors_BookForm_clean_read_date errors_clean_fields cleaned_clean_fields
        cleaned_get_def split: submitted.split)





lemma violation_has_error:
  assumes "violates d name"
  shows "errors (full_clean d) name \<noteq> None"
proof (cases "name \<in> set form_fields")
  case False
  with assms show ?thesis
    by (simp add: violates_def form_fields_def)
next
  case True
  then have "name = ''title'' \<or> name = ''pages'' \<or> name = ''rating'' \<or> name = ''status''
      \<or> name = ''published_date'' \<or> name = ''read_date'' \<or> name = ''cover_image''
      \<or> name = ''authors''"
    by (simp add: form_fields_def)
  then show ?thesis
  proof (elim disjE)
    assume "name = ''title''"
    with assms show ?thesis
      by (auto simp: errors_full_clean(1) violates_def)
  next
    assume "name = ''pages''"
    with assms show ?thesis
      by (auto simp: errors_full_clean(2) violates_def split: submitted.splits if_splits)
  next
    assume "name = ''rating''"
    with assms show ?thesis
      by (auto simp: errors_full_clean(3) violates_def split: submitted.splits if_splits)
  next
    assume "name = ''status''"
    with assms show ?thesis
      by (auto simp: errors_full_clean(4) violates_def split: submitted.splits if_splits)
  next
    assume "name = ''published_date''"
    with assms show ?thesis
      by (auto simp: errors_full_clean(5) violates_def split: submitted.splits if_splits)
  next
    assume "name = ''read_date''"
    with assms show ?thesis
      by (auto simp: errors_full_clean(6) violates_def split: submitted.splits if_splits)
  next
    assume "name = ''cover_image''"
    with assms show ?thesis
      by (auto simp: errors_full_clean(7) violates_def split: submitted.splits if_splits)
  next
    assume "name = ''authors''"
    with assms show ?thesis
      by (auto simp: errors_full_clean(8) violates_def split: submitted.splits if_splits)
  qed
qed

lemma messages_nonempty: "errors (full_clean d) name = Some msgs \<Longrightarrow> msgs \<noteq> []"
proof (cases "name \<in> set form_fields")
  case False
  assume "errors (full_clean d) name = Some msgs"
  with False show ?thesis by (simp add: errors_full_clean_other)
next
  case True
  assume e: "errors (full_clean d) name = Some msgs"
  from True have "name = ''title'' \<or> name = ''pages'' \<or> name = ''rating'' \<or> name = ''status''
      \<or> name = ''published_date'' \<or> name = ''read_date'' \<or> name = ''cover_image''
      \<or> name = ''authors''"
    by (simp add: form_fields_def)
  then show ?thesis
  proof (elim disjE)
    assume "name = ''title''"
    with e show ?thesis by (auto simp: errors_full_clean(1) split: if_splits)
  next
    assume "name = ''pages''"
    with e show ?thesis by (auto simp: errors_full_clean(2) split: submitted.splits if_splits)
  next
    assume "name = ''rating''"
    with e show ?thesis by (auto simp: errors_full_clean(3) split: submitted.splits if_splits)
  next
    assume "name = ''status''"
    with e show ?thesis by (auto simp: errors_full_clean(4) split: submitted.splits if_splits)
  next
    assume "name = ''published_date''"
    with e show ?thesis by (auto simp: errors_full_clean(5) split: submitted.splits if_splits)
  next
    assume "name = ''read_date''"
    with e show ?thesis by (auto simp: errors_full_clean(6) split: submitted.splits if_splits)
  next
    assume "name = ''cover_image''"
    with e show ?thesis by (auto simp: errors_full_clean(7) split: submitted.splits if_splits)
  next
    assume "name = ''authors''"
    with e show ?thesis by (auto simp: errors_full_clean(8) split: submitted.splits if_splits)
  qed
qed

lemma form_clean_keeps_field_errors:
  assumes "errors (clean_fields d \<lparr>errors = Map.empty, cleaned_data = empty_cleaned\<rparr>) k
      = Some msgs"
  shows "errors (BookForm_clean
      (clean_fields d \<lparr>errors = Map.empty, cleaned_data = empty_cleaned\<rparr>)) k = Some msgs"
proof (cases "k = ''read_date''")
  case False
  with assms show ?thesis by (simp add: errors_BookForm_clean_other)
next
  case True
  with assms show ?thesis
    by (auto simp: errors_form_clean_read_date errors_clean_fields(6) split: submitted.splits)
qed

lemma post_clean_extends:
  assumes "errors (BookForm_clean
      (clean_fields d \<lparr>errors = Map.empty, cleaned_data = empty_cleaned\<rparr>)) k = Some msgs"
  shows "\<exists>more. errors (full_clean d) k = Some (msgs @ more)"
proof -
  let ?form = "BookForm_clean
      (clean_fields d \<lparr>errors = Map.empty, cleaned_data = empty_cleaned\<rparr>)"
  have "errors (full_clean d) k = Some msgs \<or> errors (full_clean d) k = Some (msgs @ [Default ''min_value''])
      \<or> errors (full_clean d) k = Some (msgs @ [Default ''max_value''])"
    using assms unfolding errors_full_clean_eq [of d k] Let_def
    by (auto split: if_splits)
  then show ?thesis by (metis append_Nil2)
qed

lemma violated_is_reported:
  assumes "violates d name"
  shows "\<exists>msgs. errors (full_clean d) name = Some msgs \<and> msgs \<noteq> []"
proof -
  from assms have "errors (full_clean d) name \<noteq> None"
    by (rule violation_has_error)
  then obtain msgs where "errors (full_clean d) name = Some msgs"
    by blast
  moreover from this have "msgs \<noteq> []"
    by (rule messages_nonempty)
  ultimately show ?thesis by blast
qed

text \<open>
  Claim C8. Validation never raises: for all submitted data \<open>full_clean\<close> returns one
  mapping from field names to message lists, and every field whose rule the data break has
  a non-empty list in it, so all failing fields are reported together. The form's
  \<open>clean\<close> reports the cross-field failure by adding it to the mapping: when
  \<open>read_date\<close> is before \<open>published_date\<close>, \<open>read_date\<close> has no entry when the
  fields are done and has the message once \<open>clean\<close> has run. \<open>clean\<close> keeps every
  entry the fields have made, and the checks of the record that run after it keep every
  entry of the form and add their own.
\<close>

theorem all_failures_reported:
  "(violates d name \<longrightarrow> (\<exists>msgs. errors (full_clean d) name = Some msgs \<and> msgs \<noteq> []))
   \<and> ((\<exists>r p. in_read_date d = Parsed r \<and> in_published_date d = Parsed p \<and> date_lt r p)
       \<longrightarrow> errors (clean_fields d \<lparr>errors = Map.empty, cleaned_data = empty_cleaned\<rparr>)
             ''read_date'' = None
           \<and> errors (BookForm_clean
               (clean_fields d \<lparr>errors = Map.empty, cleaned_data = empty_cleaned\<rparr>))
               ''read_date''
             = Some [Text ''The read date must be after the published date''])
   \<and> (\<forall>k msgs.
         errors (clean_fields d \<lparr>errors = Map.empty, cleaned_data = empty_cleaned\<rparr>) k = Some msgs
       \<longrightarrow> errors (BookForm_clean
             (clean_fields d \<lparr>errors = Map.empty, cleaned_data = empty_cleaned\<rparr>)) k
           = Some msgs)
   \<and> (\<forall>k msgs.
         errors (BookForm_clean
           (clean_fields d \<lparr>errors = Map.empty, cleaned_data = empty_cleaned\<rparr>)) k = Some msgs
       \<longrightarrow> (\<exists>more. errors (full_clean d) k = Some (msgs @ more)))"
proof -
  let ?fields = "clean_fields d \<lparr>errors = Map.empty, cleaned_data = empty_cleaned\<rparr>"
  have reported: "violates d name \<longrightarrow>
      (\<exists>msgs. errors (full_clean d) name = Some msgs \<and> msgs \<noteq> [])"
    using violated_is_reported by blast
  have added: "(\<exists>r p. in_read_date d = Parsed r \<and> in_published_date d = Parsed p \<and> date_lt r p)
      \<longrightarrow> errors ?fields ''read_date'' = None
        \<and> errors (BookForm_clean ?fields) ''read_date''
          = Some [Text ''The read date must be after the published date'']"
    by (auto simp: errors_clean_fields(6) errors_form_clean_read_date)
  have kept: "\<forall>k msgs. errors ?fields k = Some msgs
      \<longrightarrow> errors (BookForm_clean ?fields) k = Some msgs"
    using form_clean_keeps_field_errors by blast
  have after: "\<forall>k msgs. errors (BookForm_clean ?fields) k = Some msgs
      \<longrightarrow> (\<exists>more. errors (full_clean d) k = Some (msgs @ more))"
    using post_clean_extends by blast
  from reported added kept after show ?thesis by (intro conjI)
qed

text \<open>
  The theorem at data with an empty title, 0 pages, rating 6 and a \<open>read_date\<close> before
  the \<open>published_date\<close>. The fields report the title; \<open>clean\<close> keeps that and adds
  \<open>read_date\<close>; the record's checks keep both and add \<open>pages\<close> and \<open>rating\<close>.
\<close>

theorem all_failures_reported_witness:
  "violates \<lparr>in_title = [], in_pages = Parsed 0, in_rating = Parsed 6,
       in_status = Parsed ''FI'', in_published_date = Parsed (Date 2020 1 1),
       in_read_date = Parsed (Date 2019 1 1), in_cover_image = Blank, in_authors = Blank\<rparr> ''title''
   \<and> violates \<lparr>in_title = [], in_pages = Parsed 0, in_rating = Parsed 6,
       in_status = Parsed ''FI'', in_published_date = Parsed (Date 2020 1 1),
       in_read_date = Parsed (Date 2019 1 1), in_cover_image = Blank, in_authors = Blank\<rparr> ''pages''
   \<and> violates \<lparr>in_title = [], in_pages = Parsed 0, in_rating = Parsed 6,
       in_status = Parsed ''FI'', in_published_date = Parsed (Date 2020 1 1),
       in_read_date = Parsed (Date 2019 1 1), in_cover_image = Blank, in_authors = Blank\<rparr> ''rating''
   \<and> violates \<lparr>in_title = [], in_pages = Parsed 0, in_rating = Parsed 6,
       in_status = Parsed ''FI'', in_published_date = Parsed (Date 2020 1 1),
       in_read_date = Parsed (Date 2019 1 1), in_cover_image = Blank, in_authors = Blank\<rparr> ''read_date''
   \<and> (\<exists>r p. in_read_date \<lparr>in_title = [], in_pages = Parsed 0, in_rating = Parsed 6,
       in_status = Parsed ''FI'', in_published_date = Parsed (Date 2020 1 1),
       in_read_date = Parsed (Date 2019 1 1), in_cover_image = Blank, in_authors = Blank\<rparr> = Parsed r \<and> in_published_date \<lparr>in_title = [], in_pages = Parsed 0, in_rating = Parsed 6,
       in_status = Parsed ''FI'', in_published_date = Parsed (Date 2020 1 1),
       in_read_date = Parsed (Date 2019 1 1), in_cover_image = Blank, in_authors = Blank\<rparr> = Parsed p \<and> date_lt r p)
   \<and> errors (clean_fields \<lparr>in_title = [], in_pages = Parsed 0, in_rating = Parsed 6,
       in_status = Parsed ''FI'', in_published_date = Parsed (Date 2020 1 1),
       in_read_date = Parsed (Date 2019 1 1), in_cover_image = Blank, in_authors = Blank\<rparr> \<lparr>errors = Map.empty, cleaned_data = empty_cleaned\<rparr>) ''title'' = Some [Text ''The title is mandatory'']
   \<and> errors (clean_fields \<lparr>in_title = [], in_pages = Parsed 0, in_rating = Parsed 6,
       in_status = Parsed ''FI'', in_published_date = Parsed (Date 2020 1 1),
       in_read_date = Parsed (Date 2019 1 1), in_cover_image = Blank, in_authors = Blank\<rparr> \<lparr>errors = Map.empty, cleaned_data = empty_cleaned\<rparr>) ''read_date'' = None
   \<and> errors (BookForm_clean (clean_fields \<lparr>in_title = [], in_pages = Parsed 0, in_rating = Parsed 6,
       in_status = Parsed ''FI'', in_published_date = Parsed (Date 2020 1 1),
       in_read_date = Parsed (Date 2019 1 1), in_cover_image = Blank, in_authors = Blank\<rparr> \<lparr>errors = Map.empty, cleaned_data = empty_cleaned\<rparr>)) ''title''
       = Some [Text ''The title is mandatory'']
   \<and> errors (BookForm_clean (clean_fields \<lparr>in_title = [], in_pages = Parsed 0, in_rating = Parsed 6,
       in_status = Parsed ''FI'', in_published_date = Parsed (Date 2020 1 1),
       in_read_date = Parsed (Date 2019 1 1), in_cover_image = Blank, in_authors = Blank\<rparr> \<lparr>errors = Map.empty, cleaned_data = empty_cleaned\<rparr>)) ''read_date''
       = Some [Text ''The read date must be after the published date'']
   \<and> (\<exists>more. errors (full_clean \<lparr>in_title = [], in_pages = Parsed 0, in_rating = Parsed 6,
       in_status = Parsed ''FI'', in_published_date = Parsed (Date 2020 1 1),
       in_read_date = Parsed (Date 2019 1 1), in_cover_image = Blank, in_authors = Blank\<rparr>) ''title''
         = Some ([Text ''The title is mandatory''] @ more))
   \<and> (\<exists>more. errors (full_clean \<lparr>in_title = [], in_pages = Parsed 0, in_rating = Parsed 6,
       in_status = Parsed ''FI'', in_published_date = Parsed (Date 2020 1 1),
       in_read_date = Parsed (Date 2019 1 1), in_cover_image = Blank, in_authors = Blank\<rparr>) ''read_date''
         = Some ([Text ''The read date must be after the published date''] @ more))
   \<and> (\<exists>msgs. errors (full_clean \<lparr>in_title = [], in_pages = Parsed 0, in_rating = Parsed 6,
       in_status = Parsed ''FI'', in_published_date = Parsed (Date 2020 1 1),
       in_read_date = Parsed (Date 2019 1 1), in_cover_image = Blank, in_authors = Blank\<rparr>) ''pages'' = Some msgs \<and> msgs \<noteq> [])
   \<and> (\<exists>msgs. errors (full_clean \<lparr>in_title = [], in_pages = Parsed 0, in_rating = Parsed 6,
       in_status = Parsed ''FI'', in_published_date = Parsed (Date 2020 1 1),
       in_read_date = Parsed (Date 2019 1 1), in_cover_image = Blank, in_authors = Blank\<rparr>) ''rating'' = Some msgs \<and> msgs \<noteq> [])"
proof -
  let ?d = "\<lparr>in_title = [], in_pages = Parsed 0, in_rating = Parsed 6,
       in_status = Parsed ''FI'', in_published_date = Parsed (Date 2020 1 1),
       in_read_date = Parsed (Date 2019 1 1), in_cover_image = Blank, in_authors = Blank\<rparr>"
  let ?fresh = "\<lparr>errors = Map.empty, cleaned_data = empty_cleaned\<rparr>"
  have v: "violates ?d ''title''" "violates ?d ''pages''" "violates ?d ''rating''"
    "violates ?d ''read_date''"
    by (simp_all add: violates_def date_lt_def date_key_def)
  have late: "\<exists>r p. in_read_date ?d = Parsed r \<and> in_published_date ?d = Parsed p \<and> date_lt r p"
    by (simp add: date_lt_def date_key_def)
  have t0: "errors (clean_fields ?d ?fresh) ''title'' = Some [Text ''The title is mandatory'']"
    by (simp add: errors_clean_fields(1))
  note title = all_failures_reported [of ?d "''title''"]
  note pages = all_failures_reported [of ?d "''pages''"]
  note rating = all_failures_reported [of ?d "''rating''"]
  have cross: "errors (clean_fields ?d ?fresh) ''read_date'' = None
      \<and> errors (BookForm_clean (clean_fields ?d ?fresh)) ''read_date''
        = Some [Text ''The read date must be after the published date'']"
    by (rule title [THEN conjunct2, THEN conjunct1, THEN mp, OF late])
  have t1: "errors (BookForm_clean (clean_fields ?d ?fresh)) ''title''
      = Some [Text ''The title is mandatory'']"
    by (rule title [THEN conjunct2, THEN conjunct2, THEN conjunct1, THEN spec, THEN spec,
          THEN mp, OF t0])
  have t2: "\<exists>more. errors (full_clean ?d) ''title'' = Some ([Text ''The title is mandatory''] @ more)"
    by (rule title [THEN conjunct2, THEN conjunct2, THEN conjunct2, THEN spec, THEN spec,
          THEN mp, OF t1])
  have r2: "\<exists>more. errors (full_clean ?d) ''read_date''
      = Some ([Text ''The read date must be after the published date''] @ more)"
    by (rule title [THEN conjunct2, THEN conjunct2, THEN conjunct2, THEN spec, THEN spec,
          THEN mp, OF cross [THEN conjunct2]])
  have p: "\<exists>msgs. errors (full_clean ?d) ''pages'' = Some msgs \<and> msgs \<noteq> []"
    by (rule pages [THEN conjunct1, THEN mp, OF v(2)])
  have r: "\<exists>msgs. errors (full_clean ?d) ''rating'' = Some msgs \<and> msgs \<noteq> []"
    by (rule rating [THEN conjunct1, THEN mp, OF v(3)])
  from v late t0 cross [THEN conjunct1] t1 cross [THEN conjunct2] t2 r2 p r
  show ?thesis by (intro conjI)
qed

end
